theory Spec2Isabelle
  imports Complex_Main
begin

section \<open>Generation service: the rate limiter of \<^verbatim>\<open>api/wordchain/route.ts\<close>\<close>

text \<open>
  The store is the module-level \<^verbatim>\<open>Map<string, { count, resetTime }>\<close>. Times are the
  integer milliseconds of \<^verbatim>\<open>Date.now()\<close>; every function that reads the clock takes the
  reading as an argument.
\<close>

record RateLimitRecord =
  count :: int
  resetTime :: int

type_synonym rateLimitStore = "string \<rightharpoonup> RateLimitRecord"

definition maxRequests :: int where
  "maxRequests = 10"

definition windowMs :: int where
  "windowMs = 15 * 60 * 1000"

definition blockDurationMs :: int where
  "blockDurationMs = 5 * 60 * 1000"

record RateLimitResult =
  allowed :: bool
  remaining :: int
  resultResetTime :: int

definition newWindow :: "int \<Rightarrow> string \<Rightarrow> rateLimitStore \<Rightarrow> RateLimitResult \<times> rateLimitStore" where
  "newWindow now key store =
     (let newRecord = \<lparr>count = 1, resetTime = now + windowMs\<rparr>
      in (\<lparr>allowed = True, remaining = maxRequests - 1, resultResetTime = resetTime newRecord\<rparr>,
          store(key \<mapsto> newRecord)))"

definition checkRateLimit :: "int \<Rightarrow> string \<Rightarrow> rateLimitStore \<Rightarrow> RateLimitResult \<times> rateLimitStore" where
  "checkRateLimit now key store =
     (case store key of
        None \<Rightarrow> newWindow now key store
      | Some r \<Rightarrow>
          if now \<ge> resetTime r then newWindow now key store
          else if count r \<ge> maxRequests then
            (\<lparr>allowed = False, remaining = 0, resultResetTime = resetTime r\<rparr>, store)
          else
            (let r' = r\<lparr>count := count r + 1\<rparr>
             in (\<lparr>allowed = True, remaining = maxRequests - count r', resultResetTime = resetTime r'\<rparr>,
                 store(key \<mapsto> r'))))"

text \<open>The sweep run by \<^verbatim>\<open>setInterval\<close> every minute: it deletes the records that are
  older than their window plus the block duration.\<close>

definition sweep :: "int \<Rightarrow> rateLimitStore \<Rightarrow> rateLimitStore" where
  "sweep now store =
     (\<lambda>key. case store key of
              None \<Rightarrow> None
            | Some r \<Rightarrow> if now \<ge> resetTime r + blockDurationMs then None else Some r)"

text \<open>What happens to the store over time: rate-limit checks of any caller, and sweeps.\<close>

datatype storeEvent = Check string int | Sweep int

fun eventTime :: "storeEvent \<Rightarrow> int" where
  "eventTime (Check key now) = now"
| "eventTime (Sweep now) = now"

text \<open>\<open>runStore\<close> plays a list of events and returns, in order, the caller and the verdict
  of every check, with the final store.\<close>

fun runStore :: "storeEvent list \<Rightarrow> rateLimitStore \<Rightarrow> (string \<times> bool) list \<times> rateLimitStore" where
  "runStore [] store = ([], store)"
| "runStore (Check key now # es) store =
     (let (res, store') = checkRateLimit now key store;
          (out, store'') = runStore es store'
      in ((key, allowed res) # out, store''))"
| "runStore (Sweep now # es) store = runStore es (sweep now store)"

definition verdictsOf :: "string \<Rightarrow> (string \<times> bool) list \<Rightarrow> bool list" where
  "verdictsOf key out = map snd (filter (\<lambda>p. fst p = key) out)"

definition checksOf :: "string \<Rightarrow> storeEvent list \<Rightarrow> nat" where
  "checksOf key es = length (filter (\<lambda>e. case e of Check k t \<Rightarrow> k = key | Sweep t \<Rightarrow> False) es)"

definition expired :: "int \<Rightarrow> string \<Rightarrow> rateLimitStore \<Rightarrow> bool" where
  "expired now key store = (case store key of None \<Rightarrow> True | Some r \<Rightarrow> now \<ge> resetTime r)"


section \<open>JavaScript values used by the endpoint\<close>

text \<open>
  Strings are lists of characters; the model is about ASCII text, where a \<^typ>\<open>char\<close> is
  one UTF-16 code unit of the JavaScript string. \<open>toUpperCase\<close> and \<open>trim\<close> are the
  ASCII parts of \<^verbatim>\<open>String.prototype.toUpperCase\<close> and \<^verbatim>\<open>String.prototype.trim\<close>.
\<close>

definition lowerLetters :: string where
  "lowerLetters = ''abcdefghijklmnopqrstuvwxyz''"

definition upperLetters :: string where
  "upperLetters = ''ABCDEFGHIJKLMNOPQRSTUVWXYZ''"

definition decimalDigits :: string where
  "decimalDigits = ''0123456789''"

definition toUpperChar :: "char \<Rightarrow> char" where
  "toUpperChar c = (case map_of (zip lowerLetters upperLetters) c of Some u \<Rightarrow> u | None \<Rightarrow> c)"

definition toUpperCase :: "string \<Rightarrow> string" where
  "toUpperCase s = map toUpperChar s"

definition isWhiteSpace :: "char \<Rightarrow> bool" where
  "isWhiteSpace c = (c \<in> set [CHR 0x09, CHR 0x0A, CHR 0x0B, CHR 0x0C, CHR 0x0D, CHR '' ''])"

definition trim :: "string \<Rightarrow> string" where
  "trim s = rev (dropWhile isWhiteSpace (rev (dropWhile isWhiteSpace s)))"

definition isLetter :: "char \<Rightarrow> bool" where
  "isLetter c = (c \<in> set (lowerLetters @ upperLetters))"

definition isWordChar :: "char \<Rightarrow> bool" where
  "isWordChar c = (isLetter c \<or> c \<in> set decimalDigits \<or> c = CHR ''_'')"

definition isLineTerminator :: "char \<Rightarrow> bool" where
  "isLineTerminator c = (c = CHR 0x0A \<or> c = CHR 0x0D)"

fun showNat :: "nat \<Rightarrow> string" where
  "showNat n = (if n < 10 then [decimalDigits ! n] else showNat (n div 10) @ [decimalDigits ! (n mod 10)])"

definition showInt :: "int \<Rightarrow> string" where
  "showInt i = (if i < 0 then CHR ''-'' # showNat (nat (- i)) else showNat (nat i))"

fun joinWith :: "string \<Rightarrow> string list \<Rightarrow> string" where
  "joinWith sep [] = []"
| "joinWith sep [x] = x"
| "joinWith sep (x # y # ys) = x @ sep @ joinWith sep (y # ys)"

text \<open>A JavaScript number as far as the endpoint looks at it: \<^verbatim>\<open>NaN\<close> or an integer.\<close>

datatype jsnumber = NaN | Num int

fun js_lt :: "jsnumber \<Rightarrow> int \<Rightarrow> bool" where
  "js_lt NaN k = False"
| "js_lt (Num n) k = (n < k)"

fun js_gt :: "jsnumber \<Rightarrow> int \<Rightarrow> bool" where
  "js_gt NaN k = False"
| "js_gt (Num n) k = (n > k)"

fun js_isNaN :: "jsnumber \<Rightarrow> bool" where
  "js_isNaN NaN = True"
| "js_isNaN (Num n) = False"

text \<open>\<open>k >= length\<close> and \<open>k !== length\<close> for an array length \<open>k\<close>.\<close>

fun js_ge :: "int \<Rightarrow> jsnumber \<Rightarrow> bool" where
  "js_ge k NaN = False"
| "js_ge k (Num n) = (k \<ge> n)"

fun js_ne :: "int \<Rightarrow> jsnumber \<Rightarrow> bool" where
  "js_ne k NaN = True"
| "js_ne k (Num n) = (k \<noteq> n)"

text \<open>
  \<^verbatim>\<open>parseInt\<close>: leading white space is skipped, a sign is read, and the longest prefix of
  digits is the value; without digits the result is \<^verbatim>\<open>NaN\<close>. Called without a radix it
  reads a \<^verbatim>\<open>0x\<close> prefix as hexadecimal; called with radix 10 it does not.
\<close>

definition decimalTable :: "(char \<times> nat) list" where
  "decimalTable = zip decimalDigits [0, 1, 2, 3, 4, 5, 6, 7, 8, 9]"

definition hexTable :: "(char \<times> nat) list" where
  "hexTable = decimalTable @ zip ''abcdef'' [10, 11, 12, 13, 14, 15] @ zip ''ABCDEF'' [10, 11, 12, 13, 14, 15]"

fun prefixDigits :: "(char \<times> nat) list \<Rightarrow> string \<Rightarrow> nat list" where
  "prefixDigits table [] = []"
| "prefixDigits table (c # cs) =
     (case map_of table c of None \<Rightarrow> [] | Some d \<Rightarrow> d # prefixDigits table cs)"

definition digitsValue :: "nat \<Rightarrow> nat list \<Rightarrow> int" where
  "digitsValue radix ds = int (foldl (\<lambda>a d. a * radix + d) 0 ds)"

definition parseDigits :: "int \<Rightarrow> nat \<Rightarrow> (char \<times> nat) list \<Rightarrow> string \<Rightarrow> jsnumber" where
  "parseDigits sign radix table s =
     (let ds = prefixDigits table s
      in if ds = [] then NaN else Num (sign * digitsValue radix ds))"

fun readSign :: "string \<Rightarrow> int \<times> string" where
  "readSign [] = (1, [])"
| "readSign (c # cs) =
     (if c = CHR ''-'' then (- 1, cs) else if c = CHR ''+'' then (1, cs) else (1, c # cs))"

fun hexPrefix :: "string \<Rightarrow> string option" where
  "hexPrefix (a # b # cs) = (if a = CHR ''0'' \<and> (b = CHR ''x'' \<or> b = CHR ''X'') then Some cs else None)"
| "hexPrefix cs = None"

definition parseInt :: "string \<Rightarrow> jsnumber" where
  "parseInt s =
     (let (sign, t) = readSign (dropWhile isWhiteSpace s)
      in case hexPrefix t of
           Some h \<Rightarrow> parseDigits sign 16 hexTable h
         | None \<Rightarrow> parseDigits sign 10 decimalTable t)"

definition parseInt10 :: "string \<Rightarrow> jsnumber" where
  "parseInt10 s =
     (let (sign, t) = readSign (dropWhile isWhiteSpace s)
      in parseDigits sign 10 decimalTable t)"

text \<open>
  The value \<^verbatim>\<open>JSON.parse\<close> returns. A number is kept as the text \<^verbatim>\<open>String\<close> gives for
  it. \<^verbatim>\<open>JSON.parse\<close> itself belongs to the platform: the endpoint takes it as the argument
  \<open>jsonParse\<close>, with \<open>None\<close> for a \<^verbatim>\<open>SyntaxError\<close>.
\<close>

datatype json = JNull | JBool bool | JNum string | JStr string | JArr "json list" | JObj "(string \<times> json) list"

fun js_String :: "json \<Rightarrow> string" where
  "js_String JNull = ''null''"
| "js_String (JBool b) = (if b then ''true'' else ''false'')"
| "js_String (JNum s) = s"
| "js_String (JStr s) = s"
| "js_String (JArr xs) = joinWith '','' (map (\<lambda>x. if x = JNull then [] else js_String x) xs)"
| "js_String (JObj kvs) = ''[object Object]''"

fun isString :: "json \<Rightarrow> bool" where
  "isString (JStr s) = True"
| "isString v = False"

text \<open>
  \<open>parseStringArray\<close> is \<^verbatim>\<open>JSON.parse\<close> on the texts that are an array of string
  literals without escapes, with optional white space; it rejects every other text. It
  stands for \<^verbatim>\<open>JSON.parse\<close> in the concrete runs below, whose texts are either such
  arrays or no JSON at all.
\<close>

datatype scanState = BeforeArray | BeforeFirst | BeforeNext | InString | AfterElement | AfterArray

definition isJsonSpace :: "char \<Rightarrow> bool" where
  "isJsonSpace c = (c \<in> set [CHR 0x09, CHR 0x0A, CHR 0x0D, CHR '' ''])"

definition isControl :: "char \<Rightarrow> bool" where
  "isControl c = ((of_char c :: nat) < 32)"

fun scanArray :: "scanState \<Rightarrow> string \<Rightarrow> string list \<Rightarrow> string \<Rightarrow> string list option" where
  "scanArray st cur acc [] = (if st = AfterArray then Some (rev acc) else None)"
| "scanArray BeforeArray cur acc (c # cs) =
     (if isJsonSpace c then scanArray BeforeArray cur acc cs
      else if c = CHR ''['' then scanArray BeforeFirst cur acc cs else None)"
| "scanArray BeforeFirst cur acc (c # cs) =
     (if isJsonSpace c then scanArray BeforeFirst cur acc cs
      else if c = CHR '']'' then scanArray AfterArray cur acc cs
      else if c = CHR 0x22 then scanArray InString [] acc cs else None)"
| "scanArray BeforeNext cur acc (c # cs) =
     (if isJsonSpace c then scanArray BeforeNext cur acc cs
      else if c = CHR 0x22 then scanArray InString [] acc cs else None)"
| "scanArray InString cur acc (c # cs) =
     (if c = CHR 0x22 then scanArray AfterElement [] (rev cur # acc) cs
      else if c = CHR 0x5C \<or> isControl c then None
      else scanArray InString (c # cur) acc cs)"
| "scanArray AfterElement cur acc (c # cs) =
     (if isJsonSpace c then scanArray AfterElement cur acc cs
      else if c = CHR '','' then scanArray BeforeNext cur acc cs
      else if c = CHR '']'' then scanArray AfterArray cur acc cs else None)"
| "scanArray AfterArray cur acc (c # cs) =
     (if isJsonSpace c then scanArray AfterArray cur acc cs else None)"

definition parseStringArray :: "string \<Rightarrow> json option" where
  "parseStringArray s = map_option (\<lambda>ws. JArr (map JStr ws)) (scanArray BeforeArray [] [] s)"

text \<open>
  The matches of \<^verbatim>\<open>/\b[a-zA-Z]+\b/g\<close>: a run of letters with a word boundary on both
  sides is a maximal run of word characters (letters, digits, underscore) that consists of
  letters only. \<open>wordRuns\<close> collects the maximal runs of word characters.
\<close>

fun wordRuns :: "string \<Rightarrow> string \<Rightarrow> string list" where
  "wordRuns cur [] = (if cur = [] then [] else [rev cur])"
| "wordRuns cur (c # cs) =
     (if isWordChar c then wordRuns (c # cur) cs
      else (if cur = [] then [] else [rev cur]) @ wordRuns [] cs)"

definition matchWords :: "string \<Rightarrow> string list" where
  "matchWords content = filter (list_all isLetter) (wordRuns [] content)"

text \<open>
  The match of \<^verbatim>\<open>/\[.*\]/\<close>: from the first \<^verbatim>\<open>[\<close> that has a \<^verbatim>\<open>]\<close> after it on the
  same line, to the last \<^verbatim>\<open>]\<close> of that line.
\<close>

fun matchArray :: "string \<Rightarrow> string option" where
  "matchArray [] = None"
| "matchArray (c # cs) =
     (let line = takeWhile (\<lambda>d. \<not> isLineTerminator d) cs
      in if c = CHR ''['' \<and> CHR '']'' \<in> set line
         then Some (c # rev (dropWhile (\<lambda>d. d \<noteq> CHR '']'') (rev line)))
         else matchArray cs)"

text \<open>\<^verbatim>\<open>xs.slice(0, n)\<close>.\<close>

definition slice0 :: "int \<Rightarrow> 'a list \<Rightarrow> 'a list" where
  "slice0 n xs = (if n < 0 then take (nat (int (length xs) + n)) xs else take (nat n) xs)"


section \<open>Generation service: the endpoint\<close>

text \<open>
  A request is what the handler reads of it: the two address headers and the
  \<^verbatim>\<open>length\<close> query parameter (\<open>None\<close> when absent). A response is its status, the fields
  of its JSON body and its headers; a header value is kept as the number it prints.
\<close>

record request =
  forwardedFor :: "string option"
  realIp :: "string option"
  lengthParam :: "string option"

datatype jsonField = FString string | FNumber int | FStrings "string list"

datatype headerValue = Decimal int | IsoDate int

record response =
  httpStatus :: int
  body :: "(string \<times> jsonField) list"
  headers :: "(string \<times> headerValue) list"

text \<open>
  The generator is the call \<^verbatim>\<open>openai.chat.completions.create\<close>: it is rejected, or it
  completes with the content of the first choice, if any. The endpoint takes it as the
  function \<open>gen\<close> of the requested length; \<open>generatorCalls\<close> lists the calls made.
\<close>

datatype completion = Rejected | Completed "string option"

record outcome =
  response :: response
  storeAfter :: rateLimitStore
  generatorCalls :: "jsnumber list"

definition getRateLimitKey :: "request \<Rightarrow> string" where
  "getRateLimitKey req =
     (let ip = (case forwardedFor req of
                  Some f \<Rightarrow>
                    if f \<noteq> [] then takeWhile (\<lambda>c. c \<noteq> CHR '','') f
                    else (case realIp req of Some r \<Rightarrow> if r \<noteq> [] then r else ''unknown'' | None \<Rightarrow> ''unknown'')
                | None \<Rightarrow>
                    (case realIp req of Some r \<Rightarrow> if r \<noteq> [] then r else ''unknown'' | None \<Rightarrow> ''unknown''))
      in ''wordchain:'' @ ip)"

definition rateLimitHeaders :: "RateLimitResult \<Rightarrow> (string \<times> headerValue) list" where
  "rateLimitHeaders res =
     [(''X-RateLimit-Limit'', Decimal maxRequests),
      (''X-RateLimit-Remaining'', Decimal (remaining res)),
      (''X-RateLimit-Reset'', IsoDate (resultResetTime res))]"

text \<open>\<^verbatim>\<open>Math.ceil(ms / 60000)\<close> on integer milliseconds.\<close>

definition ceilMinutes :: "int \<Rightarrow> int" where
  "ceilMinutes ms = - ((- ms) div 60000)"

definition rateLimitedResponse :: "RateLimitResult \<Rightarrow> int \<Rightarrow> response" where
  "rateLimitedResponse res now =
     (let resetInMinutes = ceilMinutes (resultResetTime res - now)
      in \<lparr>httpStatus = 429,
          body = [(''error'', FString ''Rate limit exceeded''),
                  (''message'', FString (''Too many requests. Please try again in '' @ showInt resetInMinutes @ '' minutes.'')),
                  (''retryAfter'', FNumber resetInMinutes)],
          headers = rateLimitHeaders res\<rparr>)"

definition invalidLengthResponse :: "RateLimitResult \<Rightarrow> response" where
  "invalidLengthResponse res =
     \<lparr>httpStatus = 400,
      body = [(''error'', FString ''Invalid length. Must be between 3 and 8.'')],
      headers = rateLimitHeaders res\<rparr>"

definition failureResponse :: response where
  "failureResponse =
     \<lparr>httpStatus = 500,
      body = [(''error'', FString ''Failed to generate word chain''),
              (''message'', FString ''Please try again in a moment.'')],
      headers = []\<rparr>"

definition successResponse :: "RateLimitResult \<Rightarrow> string list \<Rightarrow> response" where
  "successResponse res cleanWords =
     \<lparr>httpStatus = 200, body = [(''words'', FStrings cleanWords)], headers = rateLimitHeaders res\<rparr>"

text \<open>
  The parsing of the generator's text in \<^verbatim>\<open>route.ts\<close>: \<^verbatim>\<open>JSON.parse\<close> of the whole
  content and, when that throws, the first \<open>len\<close> word tokens if there are that many.
  \<open>None\<close> is the thrown error.
\<close>

definition extractWords :: "(string \<Rightarrow> json option) \<Rightarrow> jsnumber \<Rightarrow> string \<Rightarrow> json option" where
  "extractWords jsonParse len content =
     (case jsonParse content of
        Some words \<Rightarrow> Some words
      | None \<Rightarrow>
          (let wordMatches = matchWords content
           in if wordMatches \<noteq> [] \<and> js_ge (int (length wordMatches)) len
              then (case len of
                      Num n \<Rightarrow> Some (JArr (map JStr (slice0 n wordMatches)))
                    | NaN \<Rightarrow> None)
              else None))"

definition cleanWord :: "json \<Rightarrow> string" where
  "cleanWord word = toUpperCase (trim (js_String word))"

definition validateWords :: "jsnumber \<Rightarrow> json \<Rightarrow> string list option" where
  "validateWords len words =
     (case words of
        JArr ws \<Rightarrow> if js_ne (int (length ws)) len then None else Some (map cleanWord ws)
      | _ \<Rightarrow> None)"

definition requestedLength :: "request \<Rightarrow> jsnumber" where
  "requestedLength req =
     parseInt (case lengthParam req of None \<Rightarrow> ''5'' | Some s \<Rightarrow> if s = [] then ''5'' else s)"

definition generate :: "(string \<Rightarrow> json option) \<Rightarrow> (jsnumber \<Rightarrow> completion) \<Rightarrow> jsnumber \<Rightarrow> RateLimitResult \<Rightarrow> response" where
  "generate jsonParse gen len res =
     (case gen len of
        Rejected \<Rightarrow> failureResponse
      | Completed None \<Rightarrow> failureResponse
      | Completed (Some content) \<Rightarrow>
          if content = [] then failureResponse
          else (case extractWords jsonParse len content of
                  None \<Rightarrow> failureResponse
                | Some words \<Rightarrow>
                    (case validateWords len words of
                       None \<Rightarrow> failureResponse
                     | Some cleanWords \<Rightarrow> successResponse res cleanWords)))"

text \<open>
  \<^verbatim>\<open>GET\<close> of \<^verbatim>\<open>route.ts\<close>. \<open>now\<close> is the clock read by \<open>checkRateLimit\<close>, \<open>now'\<close> the
  clock read when the 429 response is built.
\<close>

definition GET :: "(string \<Rightarrow> json option) \<Rightarrow> (jsnumber \<Rightarrow> completion) \<Rightarrow> int \<Rightarrow> int \<Rightarrow> request \<Rightarrow> rateLimitStore \<Rightarrow> outcome" where
  "GET jsonParse gen now now' req store0 =
     (let rateLimitKey = getRateLimitKey req;
          (rateLimitResult, store1) = checkRateLimit now rateLimitKey store0
      in if \<not> allowed rateLimitResult then
           \<lparr>response = rateLimitedResponse rateLimitResult now', storeAfter = store1, generatorCalls = []\<rparr>
         else
           (let len = requestedLength req
            in if js_lt len 3 \<or> js_gt len 8 then
                 \<lparr>response = invalidLengthResponse rateLimitResult, storeAfter = store1, generatorCalls = []\<rparr>
               else
                 \<lparr>response = generate jsonParse gen len rateLimitResult, storeAfter = store1,
                  generatorCalls = [len]\<rparr>))"


section \<open>Generation service: the endpoint without the rate limiter\<close>

text \<open>
  \<^verbatim>\<open>GET\<close> of the second endpoint file (\<^verbatim>\<open>unnamed/part_001\<close>): bounds 2 to 20 with a
  \<^verbatim>\<open>NaN\<close> check, no rate limiter, the word list taken from the first bracketed part of the
  content and returned as parsed. \<open>apiKey\<close> says whether \<^verbatim>\<open>OPENAI_API_KEY\<close> is set.
\<close>

record outcome1 =
  response1 :: response
  generatorCalls1 :: "jsnumber list"

definition requestedLength1 :: "request \<Rightarrow> jsnumber" where
  "requestedLength1 req =
     (case lengthParam req of None \<Rightarrow> Num 5 | Some s \<Rightarrow> if s = [] then Num 5 else parseInt10 s)"

definition badLengthResponse1 :: response where
  "badLengthResponse1 =
     \<lparr>httpStatus = 400, body = [(''error'', FString ''Length must be a number between 2 and 20'')], headers = []\<rparr>"

definition missingKeyResponse1 :: response where
  "missingKeyResponse1 =
     \<lparr>httpStatus = 500, body = [(''error'', FString ''OpenAI API key not configured'')], headers = []\<rparr>"

definition failureResponse1 :: response where
  "failureResponse1 =
     \<lparr>httpStatus = 500, body = [(''error'', FString ''Word chain generation failed'')], headers = []\<rparr>"

definition parseWords1 :: "(string \<Rightarrow> json option) \<Rightarrow> jsnumber \<Rightarrow> string \<Rightarrow> string list option" where
  "parseWords1 jsonParse len responseContent =
     (case matchArray responseContent of
        None \<Rightarrow> None
      | Some jsonMatch \<Rightarrow>
          (case jsonParse jsonMatch of
             None \<Rightarrow> None
           | Some (JArr ws) \<Rightarrow>
               if js_ne (int (length ws)) len then None
               else if \<not> list_all (\<lambda>word. isString word \<and> length (trim (js_String word)) > 0) ws then None
               else Some (map js_String ws)
           | Some _ \<Rightarrow> None))"

definition GET1 :: "(string \<Rightarrow> json option) \<Rightarrow> (jsnumber \<Rightarrow> completion) \<Rightarrow> bool \<Rightarrow> request \<Rightarrow> outcome1" where
  "GET1 jsonParse gen apiKey req =
     (let len = requestedLength1 req
      in if js_isNaN len \<or> js_lt len 2 \<or> js_gt len 20 then
           \<lparr>response1 = badLengthResponse1, generatorCalls1 = []\<rparr>
         else if \<not> apiKey then
           \<lparr>response1 = missingKeyResponse1, generatorCalls1 = []\<rparr>
         else
           \<lparr>response1 =
              (case gen len of
                 Rejected \<Rightarrow> failureResponse1
               | Completed None \<Rightarrow> failureResponse1
               | Completed (Some responseContent) \<Rightarrow>
                   if responseContent = [] then failureResponse1
                   else (case parseWords1 jsonParse len responseContent of
                           None \<Rightarrow> failureResponse1
                         | Some words \<Rightarrow> \<lparr>httpStatus = 200, body = [(''words'', FStrings words)], headers = []\<rparr>)),
            generatorCalls1 = [len]\<rparr>)"


text \<open>A generator that answers every call with the same completion, for concrete runs.\<close>

definition answering :: "completion \<Rightarrow> jsnumber \<Rightarrow> completion" where
  "answering c len = c"


section \<open>The parse policy in the words of the specification\<close>




section \<open>Puzzle state machine: the page component\<close>

text \<open>
  The component of the page with hints (\<^verbatim>\<open>unnamed/part_002\<close>). The session is the React
  state the game rules read and write: \<open>words\<close>, \<open>timer\<close>, \<open>lives\<close>, \<open>isTimerRunning\<close>,
  \<open>selectedWordIndex\<close> and \<open>totalGuesses\<close>. The animation flags (\<open>droppingHeart\<close>,
  \<open>screenShake\<close>, \<open>starAnimations\<close>) are presentation only and are left out. Every
  handler runs on the state of the latest render, so a handler is a function from session
  to session.

  A cell of \<open>userInput\<close> is a string, or \<open>None\<close> for \<^verbatim>\<open>undefined\<close>.
\<close>

datatype WordStatus = unsolved | solving | solved | failed

record WordWithStatus =
  word :: string
  status :: WordStatus
  userInput :: "string option list"
  currentIndex :: nat
  hintsRevealed :: nat

record session =
  words :: "WordWithStatus list"
  timer :: nat
  lives :: int
  isTimerRunning :: bool
  selectedWordIndex :: nat
  totalGuesses :: nat

text \<open>\<^verbatim>\<open>s[j]\<close> on a string, \<^verbatim>\<open>xs[i] = v\<close> on an array (which grows when \<open>i\<close> is past
  its end), \<^verbatim>\<open>xs.join('')\<close>, \<^verbatim>\<open>xs.map((x, i) => ...)\<close> and \<^verbatim>\<open>xs.findIndex\<close>.\<close>

definition charAt :: "string \<Rightarrow> nat \<Rightarrow> string option" where
  "charAt w j = (if j < length w then Some [w ! j] else None)"

definition arraySet :: "'a option list \<Rightarrow> nat \<Rightarrow> 'a option \<Rightarrow> 'a option list" where
  "arraySet xs i v =
     (if i < length xs then xs[i := v] else xs @ replicate (i - length xs) None @ [v])"

definition joinInput :: "string option list \<Rightarrow> string" where
  "joinInput xs = concat (map (\<lambda>c. case c of None \<Rightarrow> [] | Some t \<Rightarrow> t) xs)"

definition mapIndexed :: "('a \<Rightarrow> nat \<Rightarrow> 'b) \<Rightarrow> 'a list \<Rightarrow> 'b list" where
  "mapIndexed f xs = map (\<lambda>(i, x). f x i) (enumerate 0 xs)"

fun findIndexFrom :: "nat \<Rightarrow> ('a \<Rightarrow> bool) \<Rightarrow> 'a list \<Rightarrow> nat option" where
  "findIndexFrom i P [] = None"
| "findIndexFrom i P (x # xs) = (if P x then Some i else findIndexFrom (Suc i) P xs)"

definition emptyInput :: "string option list" where
  "emptyInput = replicate 9 (Some [])"

text \<open>\<open>index > 0 && index < n - 1\<close>, and the guard
  \<open>index < 1 || index >= words.length - 1\<close> of the handlers.\<close>

definition isMiddleWord :: "nat \<Rightarrow> nat \<Rightarrow> bool" where
  "isMiddleWord n index = (index > 0 \<and> int index < int n - 1)"

definition isBoundaryIndex :: "session \<Rightarrow> nat \<Rightarrow> bool" where
  "isBoundaryIndex s index = (index < 1 \<or> int index \<ge> int (length (words s)) - 1)"

definition initialWord :: "nat \<Rightarrow> string \<Rightarrow> nat \<Rightarrow> WordWithStatus" where
  "initialWord n w index =
     \<lparr>word = toUpperCase w,
      status = (if index = 0 \<or> int index = int n - 1 then solved else unsolved),
      userInput = (if isMiddleWord n index then arraySet emptyInput 0 (charAt w 0) else emptyInput),
      currentIndex = (if isMiddleWord n index then 1 else 0),
      hintsRevealed = (if isMiddleWord n index then 1 else 0)\<rparr>"

definition initialize :: "string list \<Rightarrow> session" where
  "initialize dataWords =
     (let wordsWithStatus = mapIndexed (initialWord (length dataWords)) dataWords
      in \<lparr>words = wordsWithStatus,
          timer = 0,
          lives = 5,
          isTimerRunning = True,
          selectedWordIndex =
            (case findIndexFrom 0 (\<lambda>w. status w = unsolved) wordsWithStatus of
               None \<Rightarrow> 1
             | Some firstUnsolvedIndex \<Rightarrow> firstUnsolvedIndex),
          totalGuesses = 0\<rparr>)"

definition typeInto :: "string \<Rightarrow> WordWithStatus \<Rightarrow> WordWithStatus" where
  "typeInto key w =
     w\<lparr>userInput := arraySet (userInput w) (currentIndex w) (Some (toUpperCase key)),
       currentIndex := currentIndex w + 1,
       status := solving\<rparr>"

definition handleKeyPress :: "string \<Rightarrow> session \<Rightarrow> session" where
  "handleKeyPress key s =
     (if isBoundaryIndex s (selectedWordIndex s) then s
      else
        (let currentWord = words s ! selectedWordIndex s
         in if status currentWord = solved \<or> currentIndex currentWord \<ge> 9 then s
            else s\<lparr>words := mapIndexed (\<lambda>w index. if index = selectedWordIndex s then typeInto key w else w)
                               (words s)\<rparr>))"

definition eraseFrom :: "WordWithStatus \<Rightarrow> WordWithStatus" where
  "eraseFrom w =
     w\<lparr>userInput := arraySet (userInput w) (currentIndex w - 1) (Some []),
       currentIndex := currentIndex w - 1\<rparr>"

definition handleBackspace :: "session \<Rightarrow> session" where
  "handleBackspace s =
     (if isBoundaryIndex s (selectedWordIndex s) then s
      else
        (let currentWord = words s ! selectedWordIndex s;
             minIndex = max 1 (hintsRevealed currentWord)
         in if status currentWord = solved \<or> currentIndex currentWord \<le> minIndex then s
            else s\<lparr>words := mapIndexed (\<lambda>w index. if index = selectedWordIndex s then eraseFrom w else w)
                               (words s)\<rparr>))"

text \<open>The loop \<^verbatim>\<open>for (let j = 0; j < newHintsRevealed; j++) newInput[j] = word.word[j]\<close>.\<close>

definition fillHints :: "string \<Rightarrow> nat \<Rightarrow> string option list \<Rightarrow> string option list" where
  "fillHints w newHintsRevealed newInput =
     foldl (\<lambda>inp j. arraySet inp j (charAt w j)) newInput [0..<newHintsRevealed]"

definition failWord :: "WordWithStatus \<Rightarrow> WordWithStatus" where
  "failWord w =
     (let newHintsRevealed = min (hintsRevealed w + 1) (length (word w));
          newInput = fillHints (word w) newHintsRevealed emptyInput
      in w\<lparr>status := failed,
           userInput := newInput,
           currentIndex := newHintsRevealed,
           hintsRevealed := newHintsRevealed\<rparr>)"

definition isCorrect :: "WordWithStatus \<Rightarrow> bool" where
  "isCorrect currentWord = (trim (joinInput (userInput currentWord)) = word currentWord)"

definition handleSubmitWord :: "nat \<Rightarrow> session \<Rightarrow> session" where
  "handleSubmitWord index s =
     (if isBoundaryIndex s index then s
      else if isCorrect (words s ! index) then
        s\<lparr>totalGuesses := totalGuesses s + 1,
          words := mapIndexed (\<lambda>w i. if i = index then w\<lparr>status := solved\<rparr> else w) (words s),
          selectedWordIndex :=
            (if int index < int (length (words s)) - 2 then index + 1 else selectedWordIndex s)\<rparr>
      else
        s\<lparr>totalGuesses := totalGuesses s + 1,
          words := mapIndexed (\<lambda>w i. if i = index then failWord w else w) (words s),
          lives := lives s - 1\<rparr>)"

text \<open>The callback the failure path schedules with \<^verbatim>\<open>setTimeout\<close>.\<close>

definition revertFailed :: "nat \<Rightarrow> session \<Rightarrow> session" where
  "revertFailed index s =
     s\<lparr>words := mapIndexed (\<lambda>w i. if i = index \<and> status w = failed then w\<lparr>status := unsolved\<rparr> else w)
                   (words s)\<rparr>"

definition isGameComplete :: "session \<Rightarrow> bool" where
  "isGameComplete s = list_all (\<lambda>w. status w = solved) (words s)"

definition isGameOver :: "session \<Rightarrow> bool" where
  "isGameOver s = (lives s \<le> 0)"

definition getStarRating :: "session \<Rightarrow> nat" where
  "getStarRating s =
     (if timer s \<le> 60 \<and> lives s \<ge> 4 then 3
      else if timer s \<le> 120 \<and> lives s \<ge> 2 then 2
      else 1)"

text \<open>
  What the component renders once the chain is loaded: the completion screen, the game-over
  screen, or the board. Only the board has the keyboard, the rows and the submit buttons, so
  the player's handlers run only while the board is shown.
\<close>

datatype screen = CompleteScreen | GameOverScreen | Board

definition render :: "session \<Rightarrow> screen" where
  "render s =
     (if isGameComplete s \<and> length (words s) > 0 then CompleteScreen
      else if isGameOver s then GameOverScreen
      else Board)"

text \<open>
  The events of a session: the player's clicks (a key, backspace, a submit button, a row),
  the timer's tick, the delayed callback of a failed submit, and the effect that stops the
  timer. A submit button is offered for every index here, also where the page disables it,
  and the delayed callback may come at any time for any index: the runs of the page are
  among the runs of this machine.
\<close>

datatype event =
    KeyPress string
  | Backspace
  | SubmitWord nat
  | SelectWord nat
  | Tick
  | RevertFailed nat
  | StopTimer

fun enabled :: "event \<Rightarrow> session \<Rightarrow> bool" where
  "enabled (KeyPress key) s = (render s = Board)"
| "enabled Backspace s = (render s = Board)"
| "enabled (SubmitWord index) s = (render s = Board)"
| "enabled (SelectWord index) s = (render s = Board \<and> index < length (words s))"
| "enabled Tick s = isTimerRunning s"
| "enabled (RevertFailed index) s = True"
| "enabled StopTimer s = ((isGameComplete s \<and> length (words s) > 0) \<or> isGameOver s)"

fun perform :: "event \<Rightarrow> session \<Rightarrow> session" where
  "perform (KeyPress key) s = handleKeyPress key s"
| "perform Backspace s = handleBackspace s"
| "perform (SubmitWord index) s = handleSubmitWord index s"
| "perform (SelectWord index) s = s\<lparr>selectedWordIndex := index\<rparr>"
| "perform Tick s = s\<lparr>timer := timer s + 1\<rparr>"
| "perform (RevertFailed index) s = revertFailed index s"
| "perform StopTimer s = s\<lparr>isTimerRunning := False\<rparr>"

definition step :: "event \<Rightarrow> session \<Rightarrow> session" where
  "step e s = (if enabled e s then perform e s else s)"

fun run :: "event list \<Rightarrow> session \<Rightarrow> session" where
  "run [] s = s"
| "run (e # es) s = run es (step e s)"


section \<open>Puzzle state machine: the page component without hints\<close>

text \<open>
  The component of \<^verbatim>\<open>app/page.tsx\<close>. A slot has no \<open>hintsRevealed\<close>: the only hint is
  the first letter. The input has 12 cells, and no slot is selected at start other than by
  the default index 1. The names carry a 0 where they would clash with the names above.
\<close>

record WordWithStatus0 =
  word0 :: string
  status0 :: WordStatus
  userInput0 :: "string option list"
  currentIndex0 :: nat

record session0 =
  words0 :: "WordWithStatus0 list"
  timer0 :: nat
  lives0 :: int
  isTimerRunning0 :: bool
  selectedWordIndex0 :: nat
  totalGuesses0 :: nat

definition emptyInput0 :: "string option list" where
  "emptyInput0 = replicate 12 (Some [])"

definition isBoundaryIndex0 :: "session0 \<Rightarrow> nat \<Rightarrow> bool" where
  "isBoundaryIndex0 s index = (index < 1 \<or> int index \<ge> int (length (words0 s)) - 1)"

definition initialWord0 :: "nat \<Rightarrow> string \<Rightarrow> nat \<Rightarrow> WordWithStatus0" where
  "initialWord0 n w index =
     \<lparr>word0 = toUpperCase w,
      status0 = (if index = 0 \<or> int index = int n - 1 then solved else unsolved),
      userInput0 = (if isMiddleWord n index then arraySet emptyInput0 0 (charAt (toUpperCase w) 0)
                    else emptyInput0),
      currentIndex0 = (if isMiddleWord n index then 1 else 0)\<rparr>"

definition initialize0 :: "string list \<Rightarrow> session0" where
  "initialize0 dataWords =
     \<lparr>words0 = mapIndexed (initialWord0 (length dataWords)) dataWords,
      timer0 = 0,
      lives0 = 5,
      isTimerRunning0 = True,
      selectedWordIndex0 = 1,
      totalGuesses0 = 0\<rparr>"

definition typeInto0 :: "string \<Rightarrow> WordWithStatus0 \<Rightarrow> WordWithStatus0" where
  "typeInto0 key w =
     w\<lparr>userInput0 := arraySet (userInput0 w) (currentIndex0 w) (Some (toUpperCase key)),
       currentIndex0 := currentIndex0 w + 1,
       status0 := solving\<rparr>"

definition handleKeyPress0 :: "string \<Rightarrow> session0 \<Rightarrow> session0" where
  "handleKeyPress0 key s =
     (if isBoundaryIndex0 s (selectedWordIndex0 s) then s
      else
        (let currentWord = words0 s ! selectedWordIndex0 s
         in if status0 currentWord = solved \<or> currentIndex0 currentWord \<ge> 12 then s
            else s\<lparr>words0 := mapIndexed (\<lambda>w index. if index = selectedWordIndex0 s then typeInto0 key w else w)
                                (words0 s)\<rparr>))"

definition eraseFrom0 :: "WordWithStatus0 \<Rightarrow> WordWithStatus0" where
  "eraseFrom0 w =
     w\<lparr>userInput0 := arraySet (userInput0 w) (currentIndex0 w - 1) (Some []),
       currentIndex0 := currentIndex0 w - 1\<rparr>"

definition handleBackspace0 :: "session0 \<Rightarrow> session0" where
  "handleBackspace0 s =
     (if isBoundaryIndex0 s (selectedWordIndex0 s) then s
      else
        (let currentWord = words0 s ! selectedWordIndex0 s
         in if status0 currentWord = solved \<or> currentIndex0 currentWord \<le> 1 then s
            else s\<lparr>words0 := mapIndexed (\<lambda>w index. if index = selectedWordIndex0 s then eraseFrom0 w else w)
                                (words0 s)\<rparr>))"

definition failWord0 :: "WordWithStatus0 \<Rightarrow> WordWithStatus0" where
  "failWord0 w =
     w\<lparr>status0 := failed,
       userInput0 := arraySet emptyInput0 0 (charAt (word0 w) 0),
       currentIndex0 := 1\<rparr>"

definition isCorrect0 :: "WordWithStatus0 \<Rightarrow> bool" where
  "isCorrect0 currentWord = (trim (joinInput (userInput0 currentWord)) = word0 currentWord)"

definition handleSubmitWord0 :: "nat \<Rightarrow> session0 \<Rightarrow> session0" where
  "handleSubmitWord0 index s =
     (if isBoundaryIndex0 s index then s
      else if isCorrect0 (words0 s ! index) then
        s\<lparr>totalGuesses0 := totalGuesses0 s + 1,
          words0 := mapIndexed (\<lambda>w i. if i = index then w\<lparr>status0 := solved\<rparr> else w) (words0 s),
          selectedWordIndex0 :=
            (if int index < int (length (words0 s)) - 2 then index + 1 else selectedWordIndex0 s)\<rparr>
      else
        s\<lparr>totalGuesses0 := totalGuesses0 s + 1,
          words0 := mapIndexed (\<lambda>w i. if i = index then failWord0 w else w) (words0 s),
          lives0 := lives0 s - 1\<rparr>)"

definition isGameComplete0 :: "session0 \<Rightarrow> bool" where
  "isGameComplete0 s = list_all (\<lambda>w. status0 w = solved) (words0 s)"

definition isGameOver0 :: "session0 \<Rightarrow> bool" where
  "isGameOver0 s = (lives0 s \<le> 0)"

definition render0 :: "session0 \<Rightarrow> screen" where
  "render0 s =
     (if isGameComplete0 s \<and> length (words0 s) > 0 then CompleteScreen
      else if isGameOver0 s then GameOverScreen
      else Board)"


definition revertFailed0 :: "nat \<Rightarrow> session0 \<Rightarrow> session0" where
  "revertFailed0 index s =
     s\<lparr>words0 := mapIndexed (\<lambda>w i. if i = index \<and> status0 w = failed then w\<lparr>status0 := unsolved\<rparr> else w)
                    (words0 s)\<rparr>"

fun enabled0 :: "event \<Rightarrow> session0 \<Rightarrow> bool" where
  "enabled0 (KeyPress key) s = (render0 s = Board)"
| "enabled0 Backspace s = (render0 s = Board)"
| "enabled0 (SubmitWord index) s = (render0 s = Board)"
| "enabled0 (SelectWord index) s = (render0 s = Board \<and> index < length (words0 s))"
| "enabled0 Tick s = isTimerRunning0 s"
| "enabled0 (RevertFailed index) s = True"
| "enabled0 StopTimer s = ((isGameComplete0 s \<and> length (words0 s) > 0) \<or> isGameOver0 s)"

fun perform0 :: "event \<Rightarrow> session0 \<Rightarrow> session0" where
  "perform0 (KeyPress key) s = handleKeyPress0 key s"
| "perform0 Backspace s = handleBackspace0 s"
| "perform0 (SubmitWord index) s = handleSubmitWord0 index s"
| "perform0 (SelectWord index) s = s\<lparr>selectedWordIndex0 := index\<rparr>"
| "perform0 Tick s = s\<lparr>timer0 := timer0 s + 1\<rparr>"
| "perform0 (RevertFailed index) s = revertFailed0 index s"
| "perform0 StopTimer s = s\<lparr>isTimerRunning0 := False\<rparr>"

definition step0 :: "event \<Rightarrow> session0 \<Rightarrow> session0" where
  "step0 e s = (if enabled0 e s then perform0 e s else s)"

fun run0 :: "event list \<Rightarrow> session0 \<Rightarrow> session0" where
  "run0 [] s = s"
| "run0 (e # es) s = run0 es (step0 e s)"


text \<open>The session of the specification's scenario, for concrete runs.\<close>

definition scenarioSession :: session where
  "scenarioSession = initialize [''GOOD'', ''TIME'', ''OUT'', ''SIDE'', ''WALK'']"


text \<open>A session whose second word is the empty string, after one key, a wrong guess and
  one more key.\<close>

definition blankWordSession :: session where
  "blankWordSession =
     run [KeyPress ''X'', SubmitWord 1, KeyPress ''X''] (initialize [''GOOD'', [], ''OUT'', ''SIDE'', ''WALK''])"


text \<open>The scenario after TIME is solved and one letter is typed into the next slot.\<close>

definition secondWordSession :: session where
  "secondWordSession =
     run [KeyPress ''i'', KeyPress ''m'', KeyPress ''e'', SubmitWord 1, KeyPress ''w''] scenarioSession"


text \<open>The scenario with TIME typed into the second slot, before and after its submit.\<close>

definition typedWordSession :: session where
  "typedWordSession =
     run [KeyPress ''i'', KeyPress ''m'', KeyPress ''e'']
       (initialize [''GOOD'', ''TIME'', ''OUT'', ''SIDE'', ''WALK''])"

definition solvedWordSession :: session where
  "solvedWordSession =
     run [KeyPress ''i'', KeyPress ''m'', KeyPress ''e'', SubmitWord 1]
       (initialize [''GOOD'', ''TIME'', ''OUT'', ''SIDE'', ''WALK''])"


text \<open>The scenario after one key, a wrong guess and one more key: in the page with hints and
  in \<^verbatim>\<open>page.tsx\<close>.\<close>

definition retrySession :: session where
  "retrySession =
     run [KeyPress ''x'', SubmitWord 1, KeyPress ''x'']
       (initialize [''GOOD'', ''TIME'', ''OUT'', ''SIDE'', ''WALK''])"

definition retrySession0 :: session0 where
  "retrySession0 =
     run0 [KeyPress ''x'', SubmitWord 1, KeyPress ''x'']
       (initialize0 [''GOOD'', ''TIME'', ''OUT'', ''SIDE'', ''WALK''])"


section \<open>Properties of the rate limiter\<close>

lemma checkRateLimit_other:
  "key' \<noteq> key \<Longrightarrow> snd (checkRateLimit now key' store) key = store key"
  by (simp add: checkRateLimit_def newWindow_def Let_def split: option.splits)

lemma sweep_keeps:
  "store key = Some r \<Longrightarrow> now < resetTime r \<Longrightarrow> sweep now store key = Some r"
  by (simp add: sweep_def blockDurationMs_def)

lemma checkRateLimit_fresh:
  "expired now key store \<Longrightarrow>
   checkRateLimit now key store =
     (\<lparr>allowed = True, remaining = 9, resultResetTime = now + windowMs\<rparr>,
      store(key \<mapsto> \<lparr>count = 1, resetTime = now + windowMs\<rparr>))"
  by (auto simp: expired_def checkRateLimit_def newWindow_def maxRequests_def Let_def split: option.splits)

lemma checkRateLimit_incr:
  "store key = Some r \<Longrightarrow> now < resetTime r \<Longrightarrow> count r < maxRequests \<Longrightarrow>
   checkRateLimit now key store =
     (\<lparr>allowed = True, remaining = maxRequests - (count r + 1), resultResetTime = resetTime r\<rparr>,
      store(key \<mapsto> r\<lparr>count := count r + 1\<rparr>))"
  by (simp add: checkRateLimit_def Let_def)

lemma checkRateLimit_reject:
  "store key = Some r \<Longrightarrow> now < resetTime r \<Longrightarrow> count r \<ge> maxRequests \<Longrightarrow>
   checkRateLimit now key store =
     (\<lparr>allowed = False, remaining = 0, resultResetTime = resetTime r\<rparr>, store)"
  by (simp add: checkRateLimit_def Let_def)

lemma verdictsOf_Cons:
  "verdictsOf key ((k, b) # out) = (if k = key then b # verdictsOf key out else verdictsOf key out)"
  by (simp add: verdictsOf_def)

lemma checksOf_simps:
  "checksOf key [] = 0"
  "checksOf key (Check k t # es) = (if k = key then Suc (checksOf key es) else checksOf key es)"
  "checksOf key (Sweep t # es) = checksOf key es"
  by (simp_all add: checksOf_def)

lemma fst_runStore_Check:
  "fst (runStore (Check k t # es) store) =
     (k, allowed (fst (checkRateLimit t k store))) # fst (runStore es (snd (checkRateLimit t k store)))"
  by (simp add: split_beta)

lemma runStore_in_window:
  "store key = Some r \<Longrightarrow> \<forall>e \<in> set es. eventTime e < resetTime r \<Longrightarrow>
   verdictsOf key (fst (runStore es store)) =
     replicate (min (nat (maxRequests - count r)) (checksOf key es)) True @
     replicate (checksOf key es - nat (maxRequests - count r)) False"
proof (induction es arbitrary: store r)
  case Nil
  then show ?case by (simp add: verdictsOf_def checksOf_simps)
next
  case (Cons e es)
  show ?case
  proof (cases e)
    case (Sweep t)
    with Cons.prems have "sweep t store key = Some r"
      by (simp add: sweep_keeps)
    with Cons.IH [of "sweep t store" r] Cons.prems Sweep show ?thesis
      by (simp add: checksOf_simps)
  next
    case (Check k t)
    show ?thesis
    proof (cases "k = key")
      case False
      then have "snd (checkRateLimit t k store) key = Some r"
        using Cons.prems by (simp add: checkRateLimit_other)
      with Cons.IH [of "snd (checkRateLimit t k store)" r] Cons.prems Check False show ?thesis
        by (simp add: checksOf_simps verdictsOf_Cons fst_runStore_Check del: runStore.simps)
    next
      case True
      from Cons.prems Check have t: "t < resetTime r" by simp
      show ?thesis
      proof (cases "count r < maxRequests")
        case full: False
        then have step: "checkRateLimit t key store =
            (\<lparr>allowed = False, remaining = 0, resultResetTime = resetTime r\<rparr>, store)"
          using Cons.prems t by (simp add: checkRateLimit_reject)
        from full have z: "nat (maxRequests - count r) = 0" by simp
        from Cons.IH [of store r] Cons.prems have
          "verdictsOf key (fst (runStore es store)) = replicate (checksOf key es) False"
          by (simp add: z)
        with Check True step z show ?thesis
          by (simp add: checksOf_simps verdictsOf_Cons fst_runStore_Check del: runStore.simps)
      next
        case room: True
        let ?r' = "r\<lparr>count := count r + 1\<rparr>"
        let ?store' = "store(key \<mapsto> ?r')"
        have step: "checkRateLimit t key store =
            (\<lparr>allowed = True, remaining = maxRequests - (count r + 1), resultResetTime = resetTime r\<rparr>, ?store')"
          using Cons.prems t room by (simp add: checkRateLimit_incr)
        from room obtain q where q: "nat (maxRequests - count r) = Suc q"
          "nat (maxRequests - count ?r') = q"
          by (cases "nat (maxRequests - count r)") (auto simp: nat_diff_distrib)
        have A: "?store' key = Some ?r'" by simp
        have B: "\<forall>e \<in> set es. eventTime e < resetTime ?r'"
          using Cons.prems by simp
        have "verdictsOf key (fst (runStore es ?store')) =
             replicate (min q (checksOf key es)) True @ replicate (checksOf key es - q) False"
          using Cons.IH [of ?store' ?r', OF A B] by (simp only: q)
        with Check True step q show ?thesis
          by (simp add: checksOf_simps verdictsOf_Cons fst_runStore_Check del: runStore.simps)
      qed
    qed
  qed
qed


text \<open>
  Claim C1. A check of a caller with no record, or whose window has expired, starts a new
  window with count 1 and is allowed; a check inside the window with a count below the
  maximum of 10 increments the count and is allowed; a check inside the window with the
  count at the maximum is rejected and leaves the store as it is. So, whatever other callers
  and the sweep do in between, of the checks of one caller inside one window the first 10 are
  allowed and every later one is rejected, and the first check at or after the reset time
  opens a new window with the same quota.
\<close>

theorem checkRateLimit_window:
  "(expired now key store \<longrightarrow>
      checkRateLimit now key store =
        (\<lparr>allowed = True, remaining = 9, resultResetTime = now + windowMs\<rparr>,
         store(key \<mapsto> \<lparr>count = 1, resetTime = now + windowMs\<rparr>))) \<and>
   (\<forall>r. store key = Some r \<and> now < resetTime r \<and> count r < maxRequests \<longrightarrow>
      checkRateLimit now key store =
        (\<lparr>allowed = True, remaining = maxRequests - (count r + 1), resultResetTime = resetTime r\<rparr>,
         store(key \<mapsto> r\<lparr>count := count r + 1\<rparr>))) \<and>
   (\<forall>r. store key = Some r \<and> now < resetTime r \<and> maxRequests \<le> count r \<longrightarrow>
      checkRateLimit now key store =
        (\<lparr>allowed = False, remaining = 0, resultResetTime = resetTime r\<rparr>, store)) \<and>
   (expired now key store \<and> (\<forall>e \<in> set es. eventTime e < now + windowMs) \<longrightarrow>
      verdictsOf key (fst (runStore (Check key now # es) store)) =
        replicate (min 10 (Suc (checksOf key es))) True @
        replicate (Suc (checksOf key es) - 10) False)"
proof (intro conjI allI impI)
  assume "expired now key store"
  then show "checkRateLimit now key store =
        (\<lparr>allowed = True, remaining = 9, resultResetTime = now + windowMs\<rparr>,
         store(key \<mapsto> \<lparr>count = 1, resetTime = now + windowMs\<rparr>))"
    by (rule checkRateLimit_fresh)
next
  fix r assume "store key = Some r \<and> now < resetTime r \<and> count r < maxRequests"
  then show "checkRateLimit now key store =
        (\<lparr>allowed = True, remaining = maxRequests - (count r + 1), resultResetTime = resetTime r\<rparr>,
         store(key \<mapsto> r\<lparr>count := count r + 1\<rparr>))"
    by (simp add: checkRateLimit_incr)
next
  fix r assume "store key = Some r \<and> now < resetTime r \<and> maxRequests \<le> count r"
  then show "checkRateLimit now key store =
        (\<lparr>allowed = False, remaining = 0, resultResetTime = resetTime r\<rparr>, store)"
    by (simp add: checkRateLimit_reject)
next
  assume a: "expired now key store \<and> (\<forall>e \<in> set es. eventTime e < now + windowMs)"
  let ?r = "\<lparr>count = 1, resetTime = now + windowMs\<rparr>"
  let ?store = "store(key \<mapsto> ?r)"
  have step: "checkRateLimit now key store =
      (\<lparr>allowed = True, remaining = 9, resultResetTime = now + windowMs\<rparr>, ?store)"
    using a by (simp add: checkRateLimit_fresh)
  have A: "?store key = Some ?r" by simp
  have B: "\<forall>e \<in> set es. eventTime e < resetTime ?r" using a by simp
  have "verdictsOf key (fst (runStore es ?store)) =
      replicate (min 9 (checksOf key es)) True @ replicate (checksOf key es - 9) False"
    using runStore_in_window [of ?store key ?r es, OF A B] by (simp add: maxRequests_def)
  then show "verdictsOf key (fst (runStore (Check key now # es) store)) =
        replicate (min 10 (Suc (checksOf key es))) True @
        replicate (Suc (checksOf key es) - 10) False"
    by (simp add: step fst_runStore_Check verdictsOf_Cons Suc_diff_le
          flip: replicate_Suc del: runStore.simps)
qed

theorem checkRateLimit_window_witness:
  "expired 1000 ''wordchain:10.0.0.7'' Map.empty \<and>
   list_all (\<lambda>e. eventTime e < 1000 + windowMs)
     (map (Check ''wordchain:10.0.0.7'') [2000, 3000, 4000, 5000, 6000, 7000, 8000, 9000, 10000, 11000, 12000]) \<and>
   verdictsOf ''wordchain:10.0.0.7''
     (fst (runStore (Check ''wordchain:10.0.0.7'' 1000 #
             map (Check ''wordchain:10.0.0.7'') [2000, 3000, 4000, 5000, 6000, 7000, 8000, 9000, 10000, 11000, 12000])
           Map.empty)) =
     [True, True, True, True, True, True, True, True, True, True, False, False] \<and>
   [''k'' \<mapsto> \<lparr>count = 3, resetTime = 500\<rparr>] ''k'' = Some \<lparr>count = 3, resetTime = 500\<rparr> \<and>
   fst (checkRateLimit 100 ''k'' [''k'' \<mapsto> \<lparr>count = 3, resetTime = 500\<rparr>]) =
     \<lparr>allowed = True, remaining = 6, resultResetTime = 500\<rparr> \<and>
   checkRateLimit 100 ''k'' [''k'' \<mapsto> \<lparr>count = 10, resetTime = 500\<rparr>] =
     (\<lparr>allowed = False, remaining = 0, resultResetTime = 500\<rparr>, [''k'' \<mapsto> \<lparr>count = 10, resetTime = 500\<rparr>]) \<and>
   expired 500 ''k'' [''k'' \<mapsto> \<lparr>count = 10, resetTime = 500\<rparr>] \<and>
   fst (checkRateLimit 500 ''k'' [''k'' \<mapsto> \<lparr>count = 10, resetTime = 500\<rparr>]) =
     \<lparr>allowed = True, remaining = 9, resultResetTime = 500 + windowMs\<rparr>"
  using checkRateLimit_window [of 1000 "''wordchain:10.0.0.7''" Map.empty
          "map (Check ''wordchain:10.0.0.7'') [2000, 3000, 4000, 5000, 6000, 7000, 8000, 9000, 10000, 11000, 12000]"]
        checkRateLimit_window [of 100 "''k''" "[''k'' \<mapsto> \<lparr>count = 3, resetTime = 500\<rparr>]" "[]"]
        checkRateLimit_window [of 100 "''k''" "[''k'' \<mapsto> \<lparr>count = 10, resetTime = 500\<rparr>]" "[]"]
        checkRateLimit_window [of 500 "''k''" "[''k'' \<mapsto> \<lparr>count = 10, resetTime = 500\<rparr>]" "[]"]
  by (simp add: expired_def windowMs_def maxRequests_def checksOf_def eval_nat_numeral del: runStore.simps)

section \<open>Properties of the endpoint\<close>

lemma toUpperChar_idem: "toUpperChar (toUpperChar c) = toUpperChar c"
  by (simp add: toUpperChar_def lowerLetters_def upperLetters_def)

lemma toUpperCase_idem: "toUpperCase (toUpperCase s) = toUpperCase s"
  by (simp add: toUpperCase_def toUpperChar_idem)

lemma isWhiteSpace_toUpperChar: "isWhiteSpace (toUpperChar c) = isWhiteSpace c"
  by (simp add: toUpperChar_def lowerLetters_def upperLetters_def isWhiteSpace_def)

lemma dropWhile_toUpperCase:
  "dropWhile isWhiteSpace (toUpperCase s) = toUpperCase (dropWhile isWhiteSpace s)"
  by (induction s) (simp_all add: toUpperCase_def isWhiteSpace_toUpperChar)

lemma trim_toUpperCase: "trim (toUpperCase s) = toUpperCase (trim s)"
proof -
  have r: "rev (toUpperCase t) = toUpperCase (rev t)" for t
    by (simp add: toUpperCase_def rev_map)
  show ?thesis
    by (simp add: trim_def dropWhile_toUpperCase r)
qed

lemma dropWhile_fixed: "xs = [] \<or> \<not> P (hd xs) \<Longrightarrow> dropWhile P xs = xs"
  by (cases xs) auto

lemma trim_idem: "trim (trim s) = trim s"
proof -
  define d where "d = dropWhile isWhiteSpace s"
  define e where "e = dropWhile isWhiteSpace (rev d)"
  have "rev (takeWhile isWhiteSpace (rev d) @ e) = rev (rev d)"
    unfolding e_def by (simp only: takeWhile_dropWhile_id)
  then have d: "d = rev e @ rev (takeWhile isWhiteSpace (rev d))"
    by (simp only: rev_append rev_rev_ident)
  have "rev e = [] \<or> \<not> isWhiteSpace (hd (rev e))"
  proof (cases "rev e = []")
    case True
    then show ?thesis by simp
  next
    case False
    then have "hd (rev e) = hd d"
      using d by (metis hd_append2)
    moreover have "d \<noteq> []"
      using False d by (metis append_is_Nil_conv)
    ultimately show ?thesis
      using hd_dropWhile [of isWhiteSpace s] by (simp add: d_def)
  qed
  then have "dropWhile isWhiteSpace (rev e) = rev e"
    by (rule dropWhile_fixed)
  then show ?thesis
    by (simp add: trim_def d_def e_def)
qed

lemma cleanWord_upper: "toUpperCase (cleanWord v) = cleanWord v"
  by (simp add: cleanWord_def toUpperCase_idem)

lemma cleanWord_trimmed: "trim (cleanWord v) = cleanWord v"
  by (simp add: cleanWord_def trim_toUpperCase trim_idem)

lemma ceilMinutes_ceiling: "ceilMinutes ms = \<lceil>real_of_int ms / 60000\<rceil>"
proof -
  have "\<lceil>real_of_int ms / real_of_int 60000\<rceil> = - (- ms div 60000)"
    by (rule ceiling_divide_eq_div)
  then show ?thesis by (simp add: ceilMinutes_def)
qed

lemma generate_cases:
  "generate jsonParse gen len res = failureResponse \<or>
   (\<exists>ws. generate jsonParse gen len res = successResponse res ws)"
  by (auto simp: generate_def split: completion.splits option.splits)

lemma checkRateLimit_rejected:
  "\<not> allowed (fst (checkRateLimit now key store)) \<Longrightarrow>
   \<exists>r. store key = Some r \<and> now < resetTime r \<and> maxRequests \<le> count r \<and>
       checkRateLimit now key store =
         (\<lparr>allowed = False, remaining = 0, resultResetTime = resetTime r\<rparr>, store)"
  by (auto simp: checkRateLimit_def newWindow_def Let_def split: option.splits if_splits)

lemma GET_rejected:
  assumes "\<not> allowed (fst (checkRateLimit now (getRateLimitKey req) store0))"
  shows "\<exists>r. store0 (getRateLimitKey req) = Some r \<and> now < resetTime r \<and> maxRequests \<le> count r \<and>
     GET jsonParse gen now now' req store0 =
       \<lparr>response = rateLimitedResponse \<lparr>allowed = False, remaining = 0, resultResetTime = resetTime r\<rparr> now',
        storeAfter = store0, generatorCalls = []\<rparr>"
proof -
  from checkRateLimit_rejected [OF assms] obtain r where
    r: "store0 (getRateLimitKey req) = Some r" "now < resetTime r" "maxRequests \<le> count r"
       "checkRateLimit now (getRateLimitKey req) store0 =
          (\<lparr>allowed = False, remaining = 0, resultResetTime = resetTime r\<rparr>, store0)"
    by blast
  then show ?thesis
    by (simp add: GET_def Let_def)
qed

lemma GET_allowed:
  assumes "allowed (fst (checkRateLimit now (getRateLimitKey req) store0))"
  shows "GET jsonParse gen now now' req store0 =
     (if js_lt (requestedLength req) 3 \<or> js_gt (requestedLength req) 8
      then \<lparr>response = invalidLengthResponse (fst (checkRateLimit now (getRateLimitKey req) store0)),
            storeAfter = snd (checkRateLimit now (getRateLimitKey req) store0), generatorCalls = []\<rparr>
      else \<lparr>response = generate jsonParse gen (requestedLength req)
                         (fst (checkRateLimit now (getRateLimitKey req) store0)),
            storeAfter = snd (checkRateLimit now (getRateLimitKey req) store0),
            generatorCalls = [requestedLength req]\<rparr>)"
  using assms by (simp add: GET_def Let_def split_beta)

lemma generate_status:
  "httpStatus (generate jsonParse gen len res) = 500 \<and> generate jsonParse gen len res = failureResponse \<or>
   httpStatus (generate jsonParse gen len res) = 200 \<and>
     (\<exists>ws. generate jsonParse gen len res = successResponse res ws)"
  using generate_cases [of jsonParse gen len res]
  by (auto simp: failureResponse_def successResponse_def)

lemma GET_allowed_status:
  assumes "allowed (fst (checkRateLimit now (getRateLimitKey req) store0))"
  shows "httpStatus (response (GET jsonParse gen now now' req store0)) \<in> {400, 500, 200}"
  using generate_status [of jsonParse gen "requestedLength req" "fst (checkRateLimit now (getRateLimitKey req) store0)"]
  by (auto simp: GET_allowed [OF assms] invalidLengthResponse_def)

text \<open>
  Claim C9. A request is answered with status 429 exactly when the rate limiter rejects it.
  The body of that response has the fields error, message and retryAfter, and retryAfter is
  the time left until the reset time of the caller's window, in minutes, rounded up. That
  response and every response with status 200 carry the headers X-RateLimit-Limit,
  X-RateLimit-Remaining and X-RateLimit-Reset.
\<close>

theorem GET_rate_limit_response:
  "(httpStatus (response (GET jsonParse gen now now' req store0)) = 429 \<longleftrightarrow>
      \<not> allowed (fst (checkRateLimit now (getRateLimitKey req) store0))) \<and>
   (\<not> allowed (fst (checkRateLimit now (getRateLimitKey req) store0)) \<longrightarrow>
      (\<exists>r. store0 (getRateLimitKey req) = Some r \<and>
           storeAfter (GET jsonParse gen now now' req store0) = store0 \<and>
           map fst (body (response (GET jsonParse gen now now' req store0))) =
             [''error'', ''message'', ''retryAfter''] \<and>
           map_of (body (response (GET jsonParse gen now now' req store0))) ''retryAfter'' =
             Some (FNumber \<lceil>real_of_int (resetTime r - now') / 60000\<rceil>) \<and>
           headers (response (GET jsonParse gen now now' req store0)) =
             [(''X-RateLimit-Limit'', Decimal 10),
              (''X-RateLimit-Remaining'', Decimal 0),
              (''X-RateLimit-Reset'', IsoDate (resetTime r))])) \<and>
   (httpStatus (response (GET jsonParse gen now now' req store0)) = 200 \<longrightarrow>
      map fst (headers (response (GET jsonParse gen now now' req store0))) =
        [''X-RateLimit-Limit'', ''X-RateLimit-Remaining'', ''X-RateLimit-Reset''])"
proof (intro conjI impI)
  show "httpStatus (response (GET jsonParse gen now now' req store0)) = 429 \<longleftrightarrow>
      \<not> allowed (fst (checkRateLimit now (getRateLimitKey req) store0))"
  proof (cases "allowed (fst (checkRateLimit now (getRateLimitKey req) store0))")
    case True
    from GET_allowed_status [OF True, of jsonParse gen now' ] True show ?thesis by auto
  next
    case False
    from GET_rejected [OF False, of jsonParse gen now'] False show ?thesis
      by (auto simp: rateLimitedResponse_def Let_def)
  qed
next
  assume rej: "\<not> allowed (fst (checkRateLimit now (getRateLimitKey req) store0))"
  from GET_rejected [OF rej, of jsonParse gen now'] obtain r where
    r: "store0 (getRateLimitKey req) = Some r"
    and g: "GET jsonParse gen now now' req store0 =
       \<lparr>response = rateLimitedResponse \<lparr>allowed = False, remaining = 0, resultResetTime = resetTime r\<rparr> now',
        storeAfter = store0, generatorCalls = []\<rparr>"
    by blast
  show "\<exists>r. store0 (getRateLimitKey req) = Some r \<and>
           storeAfter (GET jsonParse gen now now' req store0) = store0 \<and>
           map fst (body (response (GET jsonParse gen now now' req store0))) =
             [''error'', ''message'', ''retryAfter''] \<and>
           map_of (body (response (GET jsonParse gen now now' req store0))) ''retryAfter'' =
             Some (FNumber \<lceil>real_of_int (resetTime r - now') / 60000\<rceil>) \<and>
           headers (response (GET jsonParse gen now now' req store0)) =
             [(''X-RateLimit-Limit'', Decimal 10),
              (''X-RateLimit-Remaining'', Decimal 0),
              (''X-RateLimit-Reset'', IsoDate (resetTime r))]"
    by (rule exI [of _ r])
       (simp add: r g rateLimitedResponse_def Let_def rateLimitHeaders_def maxRequests_def
          ceilMinutes_ceiling)
next
  assume ok: "httpStatus (response (GET jsonParse gen now now' req store0)) = 200"
  have al: "allowed (fst (checkRateLimit now (getRateLimitKey req) store0))"
  proof (rule ccontr)
    assume rej: "\<not> allowed (fst (checkRateLimit now (getRateLimitKey req) store0))"
    from GET_rejected [OF rej, of jsonParse gen now'] ok show False
      by (auto simp: rateLimitedResponse_def Let_def)
  qed
  from ok generate_status [of jsonParse gen "requestedLength req" "fst (checkRateLimit now (getRateLimitKey req) store0)"]
  show "map fst (headers (response (GET jsonParse gen now now' req store0))) =
        [''X-RateLimit-Limit'', ''X-RateLimit-Remaining'', ''X-RateLimit-Reset'']"
    by (auto simp: GET_allowed [OF al] invalidLengthResponse_def successResponse_def
          rateLimitHeaders_def split: if_splits)
qed


theorem GET_rate_limit_response_witness:
  "\<not> allowed (fst (checkRateLimit 100000
        (getRateLimitKey \<lparr>forwardedFor = Some ''203.0.113.9, 10.0.0.1'', realIp = None, lengthParam = Some ''5''\<rparr>)
        [''wordchain:203.0.113.9'' \<mapsto> \<lparr>count = 10, resetTime = 900000\<rparr>])) \<and>
   httpStatus (response (GET parseStringArray (answering Rejected) 100000 100050
        \<lparr>forwardedFor = Some ''203.0.113.9, 10.0.0.1'', realIp = None, lengthParam = Some ''5''\<rparr>
        [''wordchain:203.0.113.9'' \<mapsto> \<lparr>count = 10, resetTime = 900000\<rparr>])) = 429 \<and>
   body (response (GET parseStringArray (answering Rejected) 100000 100050
        \<lparr>forwardedFor = Some ''203.0.113.9, 10.0.0.1'', realIp = None, lengthParam = Some ''5''\<rparr>
        [''wordchain:203.0.113.9'' \<mapsto> \<lparr>count = 10, resetTime = 900000\<rparr>])) =
     [(''error'', FString ''Rate limit exceeded''),
      (''message'', FString ''Too many requests. Please try again in 14 minutes.''),
      (''retryAfter'', FNumber 14)] \<and>
   headers (response (GET parseStringArray (answering Rejected) 100000 100050
        \<lparr>forwardedFor = Some ''203.0.113.9, 10.0.0.1'', realIp = None, lengthParam = Some ''5''\<rparr>
        [''wordchain:203.0.113.9'' \<mapsto> \<lparr>count = 10, resetTime = 900000\<rparr>])) =
     [(''X-RateLimit-Limit'', Decimal 10), (''X-RateLimit-Remaining'', Decimal 0),
      (''X-RateLimit-Reset'', IsoDate 900000)] \<and>
   response (GET parseStringArray
        (answering (Completed (Some ''[\"good\", \"time\", \"out\"]''))) 100000 100050
        \<lparr>forwardedFor = None, realIp = Some ''198.51.100.4'', lengthParam = Some ''3''\<rparr>
        [''wordchain:198.51.100.4'' \<mapsto> \<lparr>count = 4, resetTime = 900000\<rparr>]) =
     \<lparr>httpStatus = 200, body = [(''words'', FStrings [''GOOD'', ''TIME'', ''OUT''])],
      headers = [(''X-RateLimit-Limit'', Decimal 10), (''X-RateLimit-Remaining'', Decimal 5),
                 (''X-RateLimit-Reset'', IsoDate 900000)]\<rparr>"
proof -
  have key: "getRateLimitKey \<lparr>forwardedFor = Some ''203.0.113.9, 10.0.0.1'', realIp = None, lengthParam = Some ''5''\<rparr>
      = ''wordchain:203.0.113.9''"
    by (simp add: getRateLimitKey_def)
  have rej: "checkRateLimit 100000 ''wordchain:203.0.113.9''
        [''wordchain:203.0.113.9'' \<mapsto> \<lparr>count = 10, resetTime = 900000\<rparr>] =
      (\<lparr>allowed = False, remaining = 0, resultResetTime = 900000\<rparr>,
       [''wordchain:203.0.113.9'' \<mapsto> \<lparr>count = 10, resetTime = 900000\<rparr>])"
    by (simp add: checkRateLimit_def maxRequests_def)
  have msg: "showInt 14 = ''14''"
    by (simp add: showInt_def decimalDigits_def)
  have ceil: "ceilMinutes 799950 = 14"
    by (simp add: ceilMinutes_def)
  have ok: "response (GET parseStringArray
        (answering (Completed (Some ''[\"good\", \"time\", \"out\"]''))) 100000 100050
        \<lparr>forwardedFor = None, realIp = Some ''198.51.100.4'', lengthParam = Some ''3''\<rparr>
        [''wordchain:198.51.100.4'' \<mapsto> \<lparr>count = 4, resetTime = 900000\<rparr>]) =
     \<lparr>httpStatus = 200, body = [(''words'', FStrings [''GOOD'', ''TIME'', ''OUT''])],
      headers = [(''X-RateLimit-Limit'', Decimal 10), (''X-RateLimit-Remaining'', Decimal 5),
                 (''X-RateLimit-Reset'', IsoDate 900000)]\<rparr>"
  proof -
    have k: "getRateLimitKey \<lparr>forwardedFor = None, realIp = Some ''198.51.100.4'', lengthParam = Some ''3''\<rparr>
        = ''wordchain:198.51.100.4''"
      by (simp add: getRateLimitKey_def)
    have c: "fst (checkRateLimit 100000 ''wordchain:198.51.100.4''
          [''wordchain:198.51.100.4'' \<mapsto> \<lparr>count = 4, resetTime = 900000\<rparr>]) =
        \<lparr>allowed = True, remaining = 5, resultResetTime = 900000\<rparr>"
      by (simp add: checkRateLimit_def maxRequests_def Let_def)
    have l: "requestedLength \<lparr>forwardedFor = None, realIp = Some ''198.51.100.4'', lengthParam = Some ''3''\<rparr> = Num 3"
      by code_simp
    have p: "parseStringArray ''[\"good\", \"time\", \"out\"]'' =
        Some (JArr [JStr ''good'', JStr ''time'', JStr ''out''])"
      by code_simp
    have w: "cleanWord (JStr ''good'') = ''GOOD''" "cleanWord (JStr ''time'') = ''TIME''"
        "cleanWord (JStr ''out'') = ''OUT''"
      by code_simp+
    show ?thesis
      by (simp add: GET_def Let_def split_beta k c l generate_def answering_def extractWords_def p
            validateWords_def w successResponse_def rateLimitHeaders_def maxRequests_def)
  qed
  have rj: "response (GET parseStringArray (answering Rejected) 100000 100050
        \<lparr>forwardedFor = Some ''203.0.113.9, 10.0.0.1'', realIp = None, lengthParam = Some ''5''\<rparr>
        [''wordchain:203.0.113.9'' \<mapsto> \<lparr>count = 10, resetTime = 900000\<rparr>]) =
     \<lparr>httpStatus = 429,
      body = [(''error'', FString ''Rate limit exceeded''),
              (''message'', FString ''Too many requests. Please try again in 14 minutes.''),
              (''retryAfter'', FNumber 14)],
      headers = [(''X-RateLimit-Limit'', Decimal 10), (''X-RateLimit-Remaining'', Decimal 0),
                 (''X-RateLimit-Reset'', IsoDate 900000)]\<rparr>"
    by (simp add: key rej GET_def rateLimitedResponse_def Let_def msg ceil rateLimitHeaders_def maxRequests_def)
  show ?thesis
    using GET_rate_limit_response [of parseStringArray "answering Rejected" 100000 100050
        "\<lparr>forwardedFor = Some ''203.0.113.9, 10.0.0.1'', realIp = None, lengthParam = Some ''5''\<rparr>"
        "[''wordchain:203.0.113.9'' \<mapsto> \<lparr>count = 10, resetTime = 900000\<rparr>]"]
    by (simp add: key rej ok rj)
qed

lemma GET1_calls:
  "generatorCalls1 (GET1 jsonParse gen apiKey req) =
     (if js_isNaN (requestedLength1 req) \<or> js_lt (requestedLength1 req) 2 \<or> js_gt (requestedLength1 req) 20
         \<or> \<not> apiKey
      then [] else [requestedLength1 req])"
  by (simp add: GET1_def Let_def)

lemma GET1_bad_length:
  "js_isNaN (requestedLength1 req) \<or> js_lt (requestedLength1 req) 2 \<or> js_gt (requestedLength1 req) 20 \<Longrightarrow>
   GET1 jsonParse gen apiKey req = \<lparr>response1 = badLengthResponse1, generatorCalls1 = []\<rparr>"
  by (simp add: GET1_def Let_def)


lemma GET1_400:
  "httpStatus (response1 (GET1 jsonParse gen apiKey req)) = 400 \<longleftrightarrow>
   js_isNaN (requestedLength1 req) \<or> js_lt (requestedLength1 req) 2 \<or> js_gt (requestedLength1 req) 20"
  by (simp add: GET1_def Let_def badLengthResponse1_def missingKeyResponse1_def failureResponse1_def
        split: completion.splits option.splits)

text \<open>
  The request of a caller whose window is used up is answered with 429 whatever its length
  parameter is: here the parameter is 99.
\<close>

theorem GET_invalid_length_rate_limited:
  "requestedLength \<lparr>forwardedFor = None, realIp = Some ''198.51.100.4'', lengthParam = Some ''99''\<rparr> = Num 99 \<and>
   httpStatus (response (GET parseStringArray (answering Rejected) 100000 100050
        \<lparr>forwardedFor = None, realIp = Some ''198.51.100.4'', lengthParam = Some ''99''\<rparr>
        [''wordchain:198.51.100.4'' \<mapsto> \<lparr>count = 10, resetTime = 900000\<rparr>])) = 429"
proof -
  have l: "requestedLength \<lparr>forwardedFor = None, realIp = Some ''198.51.100.4'', lengthParam = Some ''99''\<rparr> = Num 99"
    by code_simp
  have k: "getRateLimitKey \<lparr>forwardedFor = None, realIp = Some ''198.51.100.4'', lengthParam = Some ''99''\<rparr>
      = ''wordchain:198.51.100.4''"
    by (simp add: getRateLimitKey_def)
  have c: "checkRateLimit 100000 ''wordchain:198.51.100.4''
        [''wordchain:198.51.100.4'' \<mapsto> \<lparr>count = 10, resetTime = 900000\<rparr>] =
      (\<lparr>allowed = False, remaining = 0, resultResetTime = 900000\<rparr>,
       [''wordchain:198.51.100.4'' \<mapsto> \<lparr>count = 10, resetTime = 900000\<rparr>])"
    by (simp add: checkRateLimit_def maxRequests_def)
  show ?thesis
    by (simp add: l GET_def k c rateLimitedResponse_def Let_def)
qed

text \<open>
  In \<^verbatim>\<open>route.ts\<close> a length parameter without digits parses to \<^verbatim>\<open>NaN\<close>, which is neither
  below 3 nor above 8: the generator is called and the answer is 500. The other endpoint
  file tests \<^verbatim>\<open>isNaN(length)\<close> first.
\<close>

lemma GET_non_numeric_length:
  "requestedLength \<lparr>forwardedFor = None, realIp = Some ''198.51.100.4'', lengthParam = Some ''abc''\<rparr> = NaN \<and>
   generatorCalls (GET parseStringArray (answering (Completed (Some ''[\"good\", \"time\", \"out\"]''))) 100000 100050
        \<lparr>forwardedFor = None, realIp = Some ''198.51.100.4'', lengthParam = Some ''abc''\<rparr> Map.empty) = [NaN] \<and>
   httpStatus (response (GET parseStringArray (answering (Completed (Some ''[\"good\", \"time\", \"out\"]''))) 100000 100050
        \<lparr>forwardedFor = None, realIp = Some ''198.51.100.4'', lengthParam = Some ''abc''\<rparr> Map.empty)) = 500"
proof -
  have l: "requestedLength \<lparr>forwardedFor = None, realIp = Some ''198.51.100.4'', lengthParam = Some ''abc''\<rparr> = NaN"
    by code_simp
  have p: "parseStringArray ''[\"good\", \"time\", \"out\"]'' =
      Some (JArr [JStr ''good'', JStr ''time'', JStr ''out''])"
    by code_simp
  show ?thesis
    by (simp add: l GET_def checkRateLimit_def newWindow_def Let_def generate_def answering_def
          extractWords_def p validateWords_def failureResponse_def)
qed

text \<open>
  Claim C4, amended. In \<^verbatim>\<open>route.ts\<close> the rate limiter comes first: a rejected request is
  answered with 429 and the generator is not called. A request the limiter admits and whose
  length parses to a number is answered with 400 exactly when that number is below 3 or
  above 8; the body of a 400 answer is an error field, it carries the rate-limit headers,
  and the generator is not called. In the endpoint without the limiter a request is answered with 400 exactly when
  its length is not a number, or below 2, or above 20; the body is an error field and the
  generator is not called.
\<close>

theorem GET_invalid_length:
  "(\<not> allowed (fst (checkRateLimit now (getRateLimitKey req) store0)) \<longrightarrow>
      httpStatus (response (GET jsonParse gen now now' req store0)) = 429 \<and>
      generatorCalls (GET jsonParse gen now now' req store0) = []) \<and>
   (allowed (fst (checkRateLimit now (getRateLimitKey req) store0)) \<longrightarrow>
      (\<forall>n. requestedLength req = Num n \<longrightarrow>
         (httpStatus (response (GET jsonParse gen now now' req store0)) = 400 \<longleftrightarrow>
            n < 3 \<or> 8 < n))) \<and>
   (httpStatus (response (GET jsonParse gen now now' req store0)) = 400 \<longrightarrow>
      map fst (body (response (GET jsonParse gen now now' req store0))) = [''error''] \<and>
      map fst (headers (response (GET jsonParse gen now now' req store0))) =
        [''X-RateLimit-Limit'', ''X-RateLimit-Remaining'', ''X-RateLimit-Reset''] \<and>
      generatorCalls (GET jsonParse gen now now' req store0) = []) \<and>
   (httpStatus (response1 (GET1 jsonParse gen apiKey req)) = 400 \<longleftrightarrow>
      requestedLength1 req = NaN \<or>
      (\<exists>n. requestedLength1 req = Num n \<and> (n < 2 \<or> 20 < n))) \<and>
   (httpStatus (response1 (GET1 jsonParse gen apiKey req)) = 400 \<longrightarrow>
      map fst (body (response1 (GET1 jsonParse gen apiKey req))) = [''error''] \<and>
      generatorCalls1 (GET1 jsonParse gen apiKey req) = [])"
proof (intro conjI impI)
  assume rej: "\<not> allowed (fst (checkRateLimit now (getRateLimitKey req) store0))"
  from GET_rejected [OF rej, of jsonParse gen now']
  show "httpStatus (response (GET jsonParse gen now now' req store0)) = 429"
    and "generatorCalls (GET jsonParse gen now now' req store0) = []"
    by (auto simp: rateLimitedResponse_def Let_def)
next
  assume al: "allowed (fst (checkRateLimit now (getRateLimitKey req) store0))"
  show "\<forall>n. requestedLength req = Num n \<longrightarrow>
         (httpStatus (response (GET jsonParse gen now now' req store0)) = 400 \<longleftrightarrow>
            n < 3 \<or> 8 < n)"
  proof (intro allI impI)
    fix n
    assume len: "requestedLength req = Num n"
    have bounds: "(js_lt (requestedLength req) 3 \<or> js_gt (requestedLength req) 8) \<longleftrightarrow>
        n < 3 \<or> 8 < n"
      by (simp add: len)
    from generate_status [of jsonParse gen "requestedLength req" "fst (checkRateLimit now (getRateLimitKey req) store0)"]
    show "httpStatus (response (GET jsonParse gen now now' req store0)) = 400 \<longleftrightarrow>
           n < 3 \<or> 8 < n"
      unfolding bounds [symmetric]
      by (auto simp: GET_allowed [OF al] invalidLengthResponse_def)
  qed
next
  assume st: "httpStatus (response (GET jsonParse gen now now' req store0)) = 400"
  have al: "allowed (fst (checkRateLimit now (getRateLimitKey req) store0))"
  proof (rule ccontr)
    assume rej: "\<not> allowed (fst (checkRateLimit now (getRateLimitKey req) store0))"
    from GET_rejected [OF rej, of jsonParse gen now'] st show False
      by (auto simp: rateLimitedResponse_def Let_def)
  qed
  from st generate_status [of jsonParse gen "requestedLength req" "fst (checkRateLimit now (getRateLimitKey req) store0)"]
  have bad: "js_lt (requestedLength req) 3 \<or> js_gt (requestedLength req) 8"
    by (auto simp: GET_allowed [OF al] split: if_splits)
  then show "map fst (body (response (GET jsonParse gen now now' req store0))) = [''error'']"
    and "map fst (headers (response (GET jsonParse gen now now' req store0))) =
        [''X-RateLimit-Limit'', ''X-RateLimit-Remaining'', ''X-RateLimit-Reset'']"
    and "generatorCalls (GET jsonParse gen now now' req store0) = []"
    by (auto simp: GET_allowed [OF al] invalidLengthResponse_def rateLimitHeaders_def)
next
  have "(js_isNaN (requestedLength1 req) \<or> js_lt (requestedLength1 req) 2 \<or> js_gt (requestedLength1 req) 20)
      \<longleftrightarrow> requestedLength1 req = NaN \<or> (\<exists>n. requestedLength1 req = Num n \<and> (n < 2 \<or> 20 < n))"
    by (cases "requestedLength1 req") auto
  then show "httpStatus (response1 (GET1 jsonParse gen apiKey req)) = 400 \<longleftrightarrow>
      requestedLength1 req = NaN \<or> (\<exists>n. requestedLength1 req = Num n \<and> (n < 2 \<or> 20 < n))"
    by (simp add: GET1_400)
next
  assume "httpStatus (response1 (GET1 jsonParse gen apiKey req)) = 400"
  then have "js_isNaN (requestedLength1 req) \<or> js_lt (requestedLength1 req) 2 \<or> js_gt (requestedLength1 req) 20"
    by (simp add: GET1_400)
  then show "map fst (body (response1 (GET1 jsonParse gen apiKey req))) = [''error'']"
    and "generatorCalls1 (GET1 jsonParse gen apiKey req) = []"
    by (simp_all add: GET1_bad_length badLengthResponse1_def)
qed


theorem GET_invalid_length_witness:
  "allowed (fst (checkRateLimit 100000
      (getRateLimitKey \<lparr>forwardedFor = None, realIp = None, lengthParam = Some ''9''\<rparr>) Map.empty)) \<and>
   requestedLength \<lparr>forwardedFor = None, realIp = None, lengthParam = Some ''9''\<rparr> = Num 9 \<and>
   httpStatus (response (GET parseStringArray (answering Rejected) 100000 100050
      \<lparr>forwardedFor = None, realIp = None, lengthParam = Some ''9''\<rparr> Map.empty)) = 400 \<and>
   map fst (body (response (GET parseStringArray (answering Rejected) 100000 100050
      \<lparr>forwardedFor = None, realIp = None, lengthParam = Some ''9''\<rparr> Map.empty))) = [''error''] \<and>
   generatorCalls (GET parseStringArray (answering Rejected) 100000 100050
      \<lparr>forwardedFor = None, realIp = None, lengthParam = Some ''9''\<rparr> Map.empty) = [] \<and>
   requestedLength1 \<lparr>forwardedFor = None, realIp = None, lengthParam = Some ''abc''\<rparr> = NaN \<and>
   httpStatus (response1 (GET1 parseStringArray (answering Rejected) True
      \<lparr>forwardedFor = None, realIp = None, lengthParam = Some ''abc''\<rparr>)) = 400 \<and>
   map fst (body (response1 (GET1 parseStringArray (answering Rejected) True
      \<lparr>forwardedFor = None, realIp = None, lengthParam = Some ''abc''\<rparr>))) = [''error''] \<and>
   generatorCalls1 (GET1 parseStringArray (answering Rejected) True
      \<lparr>forwardedFor = None, realIp = None, lengthParam = Some ''abc''\<rparr>) = [] \<and>
   \<not> allowed (fst (checkRateLimit 100000
      (getRateLimitKey \<lparr>forwardedFor = None, realIp = None, lengthParam = Some ''9''\<rparr>)
      [''wordchain:unknown'' \<mapsto> \<lparr>count = 10, resetTime = 900000\<rparr>])) \<and>
   generatorCalls (GET parseStringArray (answering Rejected) 100000 100050
      \<lparr>forwardedFor = None, realIp = None, lengthParam = Some ''9''\<rparr>
      [''wordchain:unknown'' \<mapsto> \<lparr>count = 10, resetTime = 900000\<rparr>]) = []"
proof -
  have l: "requestedLength \<lparr>forwardedFor = None, realIp = None, lengthParam = Some ''9''\<rparr> = Num 9"
    by code_simp
  have l1: "requestedLength1 \<lparr>forwardedFor = None, realIp = None, lengthParam = Some ''abc''\<rparr> = NaN"
    by code_simp
  have k: "getRateLimitKey \<lparr>forwardedFor = None, realIp = None, lengthParam = Some ''9''\<rparr> = ''wordchain:unknown''"
    by (simp add: getRateLimitKey_def)
  have a: "allowed (fst (checkRateLimit 100000 ''wordchain:unknown'' Map.empty))"
    by (simp add: checkRateLimit_def newWindow_def)
  have r: "\<not> allowed (fst (checkRateLimit 100000 ''wordchain:unknown''
      [''wordchain:unknown'' \<mapsto> \<lparr>count = 10, resetTime = 900000\<rparr>]))"
    by (simp add: checkRateLimit_def maxRequests_def)
  show ?thesis
    using GET_invalid_length [of 100000 "\<lparr>forwardedFor = None, realIp = None, lengthParam = Some ''9''\<rparr>"
            Map.empty parseStringArray "answering Rejected" 100050 True]
          GET_invalid_length [of 100000 "\<lparr>forwardedFor = None, realIp = None, lengthParam = Some ''9''\<rparr>"
            "[''wordchain:unknown'' \<mapsto> \<lparr>count = 10, resetTime = 900000\<rparr>]" parseStringArray
            "answering Rejected" 100050 True]
          GET_invalid_length [of 100000 "\<lparr>forwardedFor = None, realIp = None, lengthParam = Some ''abc''\<rparr>"
            Map.empty parseStringArray "answering Rejected" 100050 True]
    by (simp add: l l1 k a r)
qed

lemma validateWords_Some:
  "validateWords len v = Some ws \<Longrightarrow>
   \<exists>n. len = Num n \<and> int (length ws) = n \<and> (\<forall>w \<in> set ws. toUpperCase w = w \<and> trim w = w)"
  by (cases v; cases len)
     (auto simp: validateWords_def cleanWord_upper cleanWord_trimmed split: if_splits)

lemma generate_success:
  "generate jsonParse gen len res = successResponse res ws \<Longrightarrow>
   \<exists>n. len = Num n \<and> int (length ws) = n \<and> (\<forall>w \<in> set ws. toUpperCase w = w \<and> trim w = w)"
  by (auto simp: generate_def successResponse_def failureResponse_def
        split: completion.splits option.splits if_splits dest!: validateWords_Some)

lemma parseWords1_Some:
  "parseWords1 jsonParse len content = Some ws \<Longrightarrow>
   \<exists>n. len = Num n \<and> int (length ws) = n \<and> (\<forall>w \<in> set ws. trim w \<noteq> [])"
  by (cases len)
     (auto simp: parseWords1_def list_all_iff split: option.splits json.splits if_splits)

lemma isString_strings:
  "list_all (\<lambda>v. isString v \<and> P v) vs \<Longrightarrow> map JStr (map js_String vs) = vs"
  by (induction vs) (auto elim: isString.elims)

lemma parseWords1_Some_iff:
  "parseWords1 jsonParse len content = Some ws \<longleftrightarrow>
     (\<exists>part vs. matchArray content = Some part \<and> jsonParse part = Some (JArr vs) \<and>
        len = Num (int (length vs)) \<and>
        list_all (\<lambda>v. isString v \<and> trim (js_String v) \<noteq> []) vs \<and> ws = map js_String vs)"
  by (cases len)
     (auto simp: parseWords1_def split: option.splits json.splits if_splits)

lemma generate_200:
  "httpStatus (generate jsonParse gen len res) = 200 \<Longrightarrow>
   \<exists>content vs. gen len = Completed (Some content) \<and> content \<noteq> [] \<and>
      extractWords jsonParse len content = Some (JArr vs) \<and> len = Num (int (length vs)) \<and>
      generate jsonParse gen len res = successResponse res (map cleanWord vs)"
  by (cases len)
     (auto simp: generate_def failureResponse_def successResponse_def validateWords_def
        split: completion.splits option.splits json.splits if_splits)


lemma GET1_200:
  "httpStatus (response1 (GET1 jsonParse gen apiKey req)) = 200 \<Longrightarrow>
   \<exists>content ws. gen (requestedLength1 req) = Completed (Some content) \<and> content \<noteq> [] \<and>
      parseWords1 jsonParse (requestedLength1 req) content = Some ws \<and>
      response1 (GET1 jsonParse gen apiKey req) =
        \<lparr>httpStatus = 200, body = [(''words'', FStrings ws)], headers = []\<rparr>"
  by (auto simp: GET1_def Let_def badLengthResponse1_def missingKeyResponse1_def failureResponse1_def
        split: if_splits completion.splits option.splits)

text \<open>
  In \<^verbatim>\<open>route.ts\<close> a word that is blank in the generator's array is returned as the empty
  string: the answer to a request for 3 words has status 200 and the words GOOD, the empty
  string, and OUT. The endpoint without the limiter returns the words as the generator wrote
  them: the answer to a request for 3 words has status 200 and the words good, time with a
  space on both sides, and out, none of them in upper case and one of them not trimmed.
\<close>

theorem GET_success_with_empty_word:
  "response (GET parseStringArray (answering (Completed (Some ''[\"good\", \" \", \"out\"]''))) 100000 100050
      \<lparr>forwardedFor = None, realIp = None, lengthParam = Some ''3''\<rparr> Map.empty) =
   \<lparr>httpStatus = 200, body = [(''words'', FStrings [''GOOD'', [], ''OUT''])],
    headers = [(''X-RateLimit-Limit'', Decimal 10), (''X-RateLimit-Remaining'', Decimal 9),
               (''X-RateLimit-Reset'', IsoDate 1000000)]\<rparr> \<and>
   response1 (GET1 parseStringArray (answering (Completed (Some ''Sure: [\"good\", \" time \", \"out\"]'')))
      True \<lparr>forwardedFor = None, realIp = None, lengthParam = Some ''3''\<rparr>) =
   \<lparr>httpStatus = 200, body = [(''words'', FStrings [''good'', '' time '', ''out''])], headers = []\<rparr> \<and>
   map toUpperCase [''good'', '' time '', ''out''] = [''GOOD'', '' TIME '', ''OUT''] \<and>
   map trim [''good'', '' time '', ''out''] = [''good'', ''time'', ''out'']"
proof -
  have l: "requestedLength \<lparr>forwardedFor = None, realIp = None, lengthParam = Some ''3''\<rparr> = Num 3"
    by code_simp
  have l1: "requestedLength1 \<lparr>forwardedFor = None, realIp = None, lengthParam = Some ''3''\<rparr> = Num 3"
    by code_simp
  have p: "parseStringArray ''[\"good\", \" \", \"out\"]'' =
      Some (JArr [JStr ''good'', JStr '' '', JStr ''out''])"
    by code_simp
  have w: "cleanWord (JStr ''good'') = ''GOOD''" "cleanWord (JStr '' '') = []"
      "cleanWord (JStr ''out'') = ''OUT''"
    by code_simp+
  have m: "matchArray ''Sure: [\"good\", \" time \", \"out\"]'' = Some ''[\"good\", \" time \", \"out\"]''"
    by code_simp
  have p1: "parseStringArray ''[\"good\", \" time \", \"out\"]'' =
      Some (JArr [JStr ''good'', JStr '' time '', JStr ''out''])"
    by code_simp
  have t: "trim ''good'' = ''good''" "trim '' time '' = ''time''" "trim ''out'' = ''out''"
    by code_simp+
  have u: "toUpperCase ''good'' = ''GOOD''" "toUpperCase '' time '' = '' TIME ''"
      "toUpperCase ''out'' = ''OUT''"
    by code_simp+
  have r: "response (GET parseStringArray (answering (Completed (Some ''[\"good\", \" \", \"out\"]''))) 100000 100050
      \<lparr>forwardedFor = None, realIp = None, lengthParam = Some ''3''\<rparr> Map.empty) =
   \<lparr>httpStatus = 200, body = [(''words'', FStrings [''GOOD'', [], ''OUT''])],
    headers = [(''X-RateLimit-Limit'', Decimal 10), (''X-RateLimit-Remaining'', Decimal 9),
               (''X-RateLimit-Reset'', IsoDate 1000000)]\<rparr>"
    by (simp add: GET_def Let_def checkRateLimit_def newWindow_def l generate_def answering_def
          extractWords_def p validateWords_def w successResponse_def rateLimitHeaders_def
          maxRequests_def windowMs_def)
  have r1: "response1 (GET1 parseStringArray (answering (Completed (Some ''Sure: [\"good\", \" time \", \"out\"]'')))
      True \<lparr>forwardedFor = None, realIp = None, lengthParam = Some ''3''\<rparr>) =
   \<lparr>httpStatus = 200, body = [(''words'', FStrings [''good'', '' time '', ''out''])], headers = []\<rparr>"
    by (simp add: GET1_def Let_def l1 answering_def parseWords1_def m p1 t del: matchArray.simps)
  have tu: "map toUpperCase [''good'', '' time '', ''out''] = [''GOOD'', '' TIME '', ''OUT'']"
    "map trim [''good'', '' time '', ''out''] = [''good'', ''time'', ''out'']"
    by (simp_all add: t u)
  show ?thesis
    by (intro conjI r r1 tu)
qed

text \<open>
  Claim C3, amended. A response of \<^verbatim>\<open>route.ts\<close> with status 200 answers a request whose
  length is a number from 3 to 8; its body is the field words with exactly that many
  strings: the elements of the array that the parsing of the generator's text gave, each
  converted to a string, trimmed and put in upper case. A response of the endpoint without
  the limiter with status 200 answers a request whose length is a number from 2 to 20; its
  body is the field words with exactly that many strings, none of them blank: they are the
  strings of the array parsed from the bracketed part of the generator's text, returned as
  they are, neither trimmed nor put in upper case.
\<close>

theorem GET_success_words:
  "(httpStatus (response (GET jsonParse gen now now' req stor)) = 200 \<longrightarrow>
      (\<exists>n content vs ws. requestedLength req = Num n \<and> 3 \<le> n \<and> n \<le> 8 \<and>
         gen (Num n) = Completed (Some content) \<and>
         extractWords jsonParse (Num n) content = Some (JArr vs) \<and>
         ws = map (\<lambda>v. toUpperCase (trim (js_String v))) vs \<and>
         body (response (GET jsonParse gen now now' req stor)) = [(''words'', FStrings ws)] \<and>
         int (length ws) = n \<and>
         (\<forall>w \<in> set ws. toUpperCase w = w \<and> trim w = w))) \<and>
   (httpStatus (response1 (GET1 jsonParse gen apiKey req)) = 200 \<longrightarrow>
      (\<exists>n content part ws. requestedLength1 req = Num n \<and> 2 \<le> n \<and> n \<le> 20 \<and>
         gen (Num n) = Completed (Some content) \<and>
         matchArray content = Some part \<and>
         jsonParse part = Some (JArr (map JStr ws)) \<and>
         body (response1 (GET1 jsonParse gen apiKey req)) = [(''words'', FStrings ws)] \<and>
         int (length ws) = n \<and>
         (\<forall>w \<in> set ws. trim w \<noteq> [])))"
proof (intro conjI impI)
  assume ok: "httpStatus (response (GET jsonParse gen now now' req stor)) = 200"
  let ?res = "fst (checkRateLimit now (getRateLimitKey req) stor)"
  have al: "allowed ?res"
  proof (rule ccontr)
    assume rej: "\<not> allowed ?res"
    from GET_rejected [OF rej, of jsonParse gen now'] ok show False
      by (auto simp: rateLimitedResponse_def Let_def)
  qed
  from ok have inb: "\<not> (js_lt (requestedLength req) 3 \<or> js_gt (requestedLength req) 8)"
    and g: "response (GET jsonParse gen now now' req stor) = generate jsonParse gen (requestedLength req) ?res"
    by (auto simp: GET_allowed [OF al] invalidLengthResponse_def split: if_splits)
  from ok g have "httpStatus (generate jsonParse gen (requestedLength req) ?res) = 200"
    by simp
  from generate_200 [OF this] obtain content vs where
    c: "gen (requestedLength req) = Completed (Some content)"
    and e: "extractWords jsonParse (requestedLength req) content = Some (JArr vs)"
    and n: "requestedLength req = Num (int (length vs))"
    and r: "generate jsonParse gen (requestedLength req) ?res = successResponse ?res (map cleanWord vs)"
    by blast
  define ws where "ws = map (\<lambda>v. toUpperCase (trim (js_String v))) vs"
  have ws': "ws = map cleanWord vs"
    by (simp add: ws_def cleanWord_def)
  have b: "body (response (GET jsonParse gen now now' req stor)) = [(''words'', FStrings ws)]"
    by (simp add: g r ws' successResponse_def)
  have u: "\<forall>w \<in> set ws. toUpperCase w = w \<and> trim w = w"
    by (auto simp: ws' cleanWord_upper cleanWord_trimmed)
  from inb n have bounds: "3 \<le> int (length vs)" "int (length vs) \<le> 8" by simp_all
  have len: "int (length ws) = int (length vs)" by (simp add: ws_def)
  from c e n have c': "gen (Num (int (length vs))) = Completed (Some content)"
    and e': "extractWords jsonParse (Num (int (length vs))) content = Some (JArr vs)"
    by simp_all
  show "\<exists>n content vs ws. requestedLength req = Num n \<and> 3 \<le> n \<and> n \<le> 8 \<and>
         gen (Num n) = Completed (Some content) \<and>
         extractWords jsonParse (Num n) content = Some (JArr vs) \<and>
         ws = map (\<lambda>v. toUpperCase (trim (js_String v))) vs \<and>
         body (response (GET jsonParse gen now now' req stor)) = [(''words'', FStrings ws)] \<and>
         int (length ws) = n \<and>
         (\<forall>w \<in> set ws. toUpperCase w = w \<and> trim w = w)"
    using n bounds c' e' ws_def b len u by blast
next
  assume ok: "httpStatus (response1 (GET1 jsonParse gen apiKey req)) = 200"
  then have inb: "\<not> (js_isNaN (requestedLength1 req) \<or> js_lt (requestedLength1 req) 2 \<or> js_gt (requestedLength1 req) 20)"
    by (auto simp: GET1_def Let_def badLengthResponse1_def split: if_splits)
  from GET1_200 [OF ok] obtain content ws where
    c: "gen (requestedLength1 req) = Completed (Some content)"
    and p: "parseWords1 jsonParse (requestedLength1 req) content = Some ws"
    and b: "response1 (GET1 jsonParse gen apiKey req) =
        \<lparr>httpStatus = 200, body = [(''words'', FStrings ws)], headers = []\<rparr>"
    by blast
  from p obtain part vs where
    m: "matchArray content = Some part"
    and j: "jsonParse part = Some (JArr vs)"
    and n: "requestedLength1 req = Num (int (length vs))"
    and a: "list_all (\<lambda>v. isString v \<and> trim (js_String v) \<noteq> []) vs"
    and ws: "ws = map js_String vs"
    unfolding parseWords1_Some_iff by blast
  from isString_strings [OF a] have j': "jsonParse part = Some (JArr (map JStr ws))"
    by (simp add: j ws)
  from a have t: "\<forall>w \<in> set ws. trim w \<noteq> []"
    by (auto simp: ws list_all_iff)
  have len: "int (length ws) = int (length vs)" by (simp add: ws)
  from inb n have bounds: "2 \<le> int (length vs)" "int (length vs) \<le> 20" by simp_all
  from c n have c': "gen (Num (int (length vs))) = Completed (Some content)" by simp
  have b': "body (response1 (GET1 jsonParse gen apiKey req)) = [(''words'', FStrings ws)]"
    by (simp add: b)
  show "\<exists>n content part ws. requestedLength1 req = Num n \<and> 2 \<le> n \<and> n \<le> 20 \<and>
         gen (Num n) = Completed (Some content) \<and>
         matchArray content = Some part \<and>
         jsonParse part = Some (JArr (map JStr ws)) \<and>
         body (response1 (GET1 jsonParse gen apiKey req)) = [(''words'', FStrings ws)] \<and>
         int (length ws) = n \<and>
         (\<forall>w \<in> set ws. trim w \<noteq> [])"
    using n bounds c' m j' b' len t by blast
qed

theorem GET_success_words_witness:
  "httpStatus (response (GET parseStringArray (answering (Completed (Some ''[\"good\", \"time\", \"out\"]'')))
      100000 100050 \<lparr>forwardedFor = None, realIp = None, lengthParam = Some ''3''\<rparr> Map.empty)) = 200 \<and>
   body (response (GET parseStringArray (answering (Completed (Some ''[\"good\", \"time\", \"out\"]'')))
      100000 100050 \<lparr>forwardedFor = None, realIp = None, lengthParam = Some ''3''\<rparr> Map.empty)) =
     [(''words'', FStrings [''GOOD'', ''TIME'', ''OUT''])] \<and>
   httpStatus (response1 (GET1 parseStringArray (answering (Completed (Some ''Sure: [\"good\", \"time\", \"out\"]'')))
      True \<lparr>forwardedFor = None, realIp = None, lengthParam = Some ''3''\<rparr>)) = 200 \<and>
   body (response1 (GET1 parseStringArray (answering (Completed (Some ''Sure: [\"good\", \"time\", \"out\"]'')))
      True \<lparr>forwardedFor = None, realIp = None, lengthParam = Some ''3''\<rparr>)) =
     [(''words'', FStrings [''good'', ''time'', ''out''])]"
proof -
  have l: "requestedLength \<lparr>forwardedFor = None, realIp = None, lengthParam = Some ''3''\<rparr> = Num 3"
    by code_simp
  have l1: "requestedLength1 \<lparr>forwardedFor = None, realIp = None, lengthParam = Some ''3''\<rparr> = Num 3"
    by code_simp
  have p: "parseStringArray ''[\"good\", \"time\", \"out\"]'' =
      Some (JArr [JStr ''good'', JStr ''time'', JStr ''out''])"
    by code_simp
  have m: "matchArray ''Sure: [\"good\", \"time\", \"out\"]'' = Some ''[\"good\", \"time\", \"out\"]''"
    by code_simp
  have w: "cleanWord (JStr ''good'') = ''GOOD''" "cleanWord (JStr ''time'') = ''TIME''"
      "cleanWord (JStr ''out'') = ''OUT''"
    by code_simp+
  have t: "trim ''good'' = ''good''" "trim ''time'' = ''time''" "trim ''out'' = ''out''"
    by code_simp+
  have r: "response (GET parseStringArray (answering (Completed (Some ''[\"good\", \"time\", \"out\"]'')))
      100000 100050 \<lparr>forwardedFor = None, realIp = None, lengthParam = Some ''3''\<rparr> Map.empty) =
      \<lparr>httpStatus = 200, body = [(''words'', FStrings [''GOOD'', ''TIME'', ''OUT''])],
       headers = rateLimitHeaders \<lparr>allowed = True, remaining = 9, resultResetTime = 100000 + windowMs\<rparr>\<rparr>"
    by (simp add: GET_def Let_def checkRateLimit_def newWindow_def l generate_def answering_def
          extractWords_def p validateWords_def w successResponse_def maxRequests_def)
  have r1: "response1 (GET1 parseStringArray (answering (Completed (Some ''Sure: [\"good\", \"time\", \"out\"]'')))
      True \<lparr>forwardedFor = None, realIp = None, lengthParam = Some ''3''\<rparr>) =
      \<lparr>httpStatus = 200, body = [(''words'', FStrings [''good'', ''time'', ''out''])], headers = []\<rparr>"
    by (simp add: GET1_def Let_def l1 answering_def parseWords1_def m p t del: matchArray.simps)
  show ?thesis
    using GET_success_words [of parseStringArray "answering (Completed (Some ''[\"good\", \"time\", \"out\"]''))"
            100000 100050 "\<lparr>forwardedFor = None, realIp = None, lengthParam = Some ''3''\<rparr>" Map.empty True]
          GET_success_words [of parseStringArray "answering (Completed (Some ''Sure: [\"good\", \"time\", \"out\"]''))"
            100000 100050 "\<lparr>forwardedFor = None, realIp = None, lengthParam = Some ''3''\<rparr>" Map.empty True]
    by (simp add: r r1)
qed





section \<open>Properties of the puzzle state machine\<close>

lemma length_mapIndexed: "length (mapIndexed f xs) = length xs"
  by (simp add: mapIndexed_def)

lemma nth_mapIndexed: "i < length xs \<Longrightarrow> mapIndexed f xs ! i = f (xs ! i) i"
  by (simp add: mapIndexed_def nth_enumerate_eq)

lemma mapIndexed_at:
  "mapIndexed (\<lambda>w i. if i = t then f w else w) xs =
     (if t < length xs then xs[t := f (xs ! t)] else xs)"
  by (rule nth_equalityI) (auto simp: length_mapIndexed nth_mapIndexed nth_list_update)

lemma mapIndexed_at_if:
  "mapIndexed (\<lambda>w i. if i = t \<and> P w then f w else w) xs =
     (if t < length xs \<and> P (xs ! t) then xs[t := f (xs ! t)] else xs)"
  by (rule nth_equalityI) (auto simp: length_mapIndexed nth_mapIndexed nth_list_update)

lemma length_arraySet: "length (arraySet xs i v) = max (Suc i) (length xs)"
  by (simp add: arraySet_def)

lemma nth_arraySet_same: "arraySet xs i v ! i = v"
  by (simp add: arraySet_def nth_append)

lemma nth_arraySet_other: "j < length xs \<Longrightarrow> j \<noteq> i \<Longrightarrow> arraySet xs i v ! j = xs ! j"
  by (simp add: arraySet_def nth_append)

lemma not_boundary_less: "\<not> isBoundaryIndex s i \<Longrightarrow> i < length (words s)"
  by (simp add: isBoundaryIndex_def)

lemma handleKeyPress_words:
  "words (handleKeyPress key s) = words s \<or>
   (selectedWordIndex s < length (words s) \<and>
    status (words s ! selectedWordIndex s) \<noteq> solved \<and>
    words (handleKeyPress key s) =
      (words s)[selectedWordIndex s := typeInto key (words s ! selectedWordIndex s)])"
  by (auto simp: handleKeyPress_def Let_def mapIndexed_at dest: not_boundary_less)

lemma handleBackspace_words:
  "words (handleBackspace s) = words s \<or>
   (selectedWordIndex s < length (words s) \<and>
    status (words s ! selectedWordIndex s) \<noteq> solved \<and>
    max 1 (hintsRevealed (words s ! selectedWordIndex s)) < currentIndex (words s ! selectedWordIndex s) \<and>
    words (handleBackspace s) =
      (words s)[selectedWordIndex s := eraseFrom (words s ! selectedWordIndex s)])"
  by (auto simp: handleBackspace_def Let_def mapIndexed_at dest: not_boundary_less)

lemma handleSubmitWord_words:
  "words (handleSubmitWord index s) =
     (if isBoundaryIndex s index then words s
      else if isCorrect (words s ! index) then (words s)[index := (words s ! index)\<lparr>status := solved\<rparr>]
      else (words s)[index := failWord (words s ! index)])"
  by (auto simp: handleSubmitWord_def mapIndexed_at dest: not_boundary_less)

lemma revertFailed_words:
  "words (revertFailed index s) =
     (if index < length (words s) \<and> status (words s ! index) = failed
      then (words s)[index := (words s ! index)\<lparr>status := unsolved\<rparr>] else words s)"
  by (simp add: revertFailed_def mapIndexed_at_if)

lemma handler_other_fields:
  "lives (handleKeyPress key s) = lives s"
  "totalGuesses (handleKeyPress key s) = totalGuesses s"
  "selectedWordIndex (handleKeyPress key s) = selectedWordIndex s"
  "timer (handleKeyPress key s) = timer s"
  "isTimerRunning (handleKeyPress key s) = isTimerRunning s"
  "lives (handleBackspace s) = lives s"
  "totalGuesses (handleBackspace s) = totalGuesses s"
  "selectedWordIndex (handleBackspace s) = selectedWordIndex s"
  "timer (handleBackspace s) = timer s"
  "isTimerRunning (handleBackspace s) = isTimerRunning s"
  "timer (handleSubmitWord index s) = timer s"
  "isTimerRunning (handleSubmitWord index s) = isTimerRunning s"
  by (simp_all add: handleKeyPress_def handleBackspace_def handleSubmitWord_def Let_def)

lemma word_typeInto: "word (typeInto key w) = word w"
  and hints_typeInto: "hintsRevealed (typeInto key w) = hintsRevealed w"
  and word_eraseFrom: "word (eraseFrom w) = word w"
  and hints_eraseFrom: "hintsRevealed (eraseFrom w) = hintsRevealed w"
  and status_eraseFrom: "status (eraseFrom w) = status w"
  and word_failWord: "word (failWord w) = word w"
  by (simp_all add: typeInto_def eraseFrom_def failWord_def Let_def)

lemma map_update_same: "i < length xs \<Longrightarrow> f y = f (xs ! i) \<Longrightarrow> map f (xs[i := y]) = map f xs"
  by (simp add: map_update list_update_same_conv)

text \<open>
  Claim C10. A key press and a backspace change at most the slot at \<open>selectedWordIndex\<close>, and
  of that slot neither the solution word nor \<open>hintsRevealed\<close>; they leave \<open>lives\<close>,
  \<open>totalGuesses\<close>, \<open>selectedWordIndex\<close> and the timer as they are. A submit changes at
  most the slot at the submitted index, \<open>lives\<close>, \<open>totalGuesses\<close> and
  \<open>selectedWordIndex\<close>; it leaves the timer as it is. No handler changes the number of
  slots or the solution word of any slot.
\<close>

theorem handlers_frame:
  "length (words (handleKeyPress key s)) = length (words s) \<and>
   (\<forall>j < length (words s). j \<noteq> selectedWordIndex s \<longrightarrow> words (handleKeyPress key s) ! j = words s ! j) \<and>
   map word (words (handleKeyPress key s)) = map word (words s) \<and>
   map hintsRevealed (words (handleKeyPress key s)) = map hintsRevealed (words s) \<and>
   lives (handleKeyPress key s) = lives s \<and>
   totalGuesses (handleKeyPress key s) = totalGuesses s \<and>
   selectedWordIndex (handleKeyPress key s) = selectedWordIndex s \<and>
   timer (handleKeyPress key s) = timer s \<and>
   isTimerRunning (handleKeyPress key s) = isTimerRunning s \<and>
   length (words (handleBackspace s)) = length (words s) \<and>
   (\<forall>j < length (words s). j \<noteq> selectedWordIndex s \<longrightarrow> words (handleBackspace s) ! j = words s ! j) \<and>
   map word (words (handleBackspace s)) = map word (words s) \<and>
   map hintsRevealed (words (handleBackspace s)) = map hintsRevealed (words s) \<and>
   map status (words (handleBackspace s)) = map status (words s) \<and>
   lives (handleBackspace s) = lives s \<and>
   totalGuesses (handleBackspace s) = totalGuesses s \<and>
   selectedWordIndex (handleBackspace s) = selectedWordIndex s \<and>
   timer (handleBackspace s) = timer s \<and>
   isTimerRunning (handleBackspace s) = isTimerRunning s \<and>
   length (words (handleSubmitWord index s)) = length (words s) \<and>
   (\<forall>j < length (words s). j \<noteq> index \<longrightarrow> words (handleSubmitWord index s) ! j = words s ! j) \<and>
   map word (words (handleSubmitWord index s)) = map word (words s) \<and>
   timer (handleSubmitWord index s) = timer s \<and>
   isTimerRunning (handleSubmitWord index s) = isTimerRunning s"
proof -
  have k: "length (words (handleKeyPress key s)) = length (words s)"
    "\<forall>j < length (words s). j \<noteq> selectedWordIndex s \<longrightarrow> words (handleKeyPress key s) ! j = words s ! j"
    "map word (words (handleKeyPress key s)) = map word (words s)"
    "map hintsRevealed (words (handleKeyPress key s)) = map hintsRevealed (words s)"
    using handleKeyPress_words [of key s]
    by (auto simp: map_update_same word_typeInto hints_typeInto)
  have b: "length (words (handleBackspace s)) = length (words s)"
    "\<forall>j < length (words s). j \<noteq> selectedWordIndex s \<longrightarrow> words (handleBackspace s) ! j = words s ! j"
    "map word (words (handleBackspace s)) = map word (words s)"
    "map hintsRevealed (words (handleBackspace s)) = map hintsRevealed (words s)"
    "map status (words (handleBackspace s)) = map status (words s)"
    using handleBackspace_words [of s]
    by (auto simp: map_update_same word_eraseFrom hints_eraseFrom status_eraseFrom)
  have u: "length (words (handleSubmitWord index s)) = length (words s)"
    "\<forall>j < length (words s). j \<noteq> index \<longrightarrow> words (handleSubmitWord index s) ! j = words s ! j"
    "map word (words (handleSubmitWord index s)) = map word (words s)"
    by (auto simp: handleSubmitWord_words map_update_same word_failWord dest: not_boundary_less)
  show ?thesis
    by (intro conjI k b u handler_other_fields)
qed

theorem handlers_frame_witness:
  "selectedWordIndex scenarioSession = 1 \<and>
   length (words scenarioSession) = 5 \<and>
   words (handleKeyPress ''i'' scenarioSession) ! 2 = words scenarioSession ! 2 \<and>
   words (handleBackspace scenarioSession) ! 2 = words scenarioSession ! 2 \<and>
   words (handleSubmitWord 1 scenarioSession) ! 2 = words scenarioSession ! 2 \<and>
   userInput (words (handleKeyPress ''i'' scenarioSession) ! 1) =
     [Some ''T'', Some ''I'', Some [], Some [], Some [], Some [], Some [], Some [], Some []] \<and>
   map word (words (handleSubmitWord 1 scenarioSession)) =
     [''GOOD'', ''TIME'', ''OUT'', ''SIDE'', ''WALK'']"
proof -
  have a: "selectedWordIndex scenarioSession = 1"
    by code_simp
  have b: "length (words scenarioSession) = 5"
    by code_simp
  have c: "userInput (words (handleKeyPress ''i'' scenarioSession) ! 1) =
     [Some ''T'', Some ''I'', Some [], Some [], Some [], Some [], Some [], Some [], Some []]"
    by code_simp
  have d: "map word (words scenarioSession) = [''GOOD'', ''TIME'', ''OUT'', ''SIDE'', ''WALK'']"
    by code_simp
  note frame = handlers_frame [of "''i''" scenarioSession 1]
  from frame have "\<forall>j < length (words scenarioSession). j \<noteq> selectedWordIndex scenarioSession \<longrightarrow>
      words (handleKeyPress ''i'' scenarioSession) ! j = words scenarioSession ! j"
    by blast
  then have k: "words (handleKeyPress ''i'' scenarioSession) ! 2 = words scenarioSession ! 2"
    by (simp add: a b)
  from frame have "\<forall>j < length (words scenarioSession). j \<noteq> selectedWordIndex scenarioSession \<longrightarrow>
      words (handleBackspace scenarioSession) ! j = words scenarioSession ! j"
    by blast
  then have e: "words (handleBackspace scenarioSession) ! 2 = words scenarioSession ! 2"
    by (simp add: a b)
  from frame have "\<forall>j < length (words scenarioSession). j \<noteq> 1 \<longrightarrow>
      words (handleSubmitWord 1 scenarioSession) ! j = words scenarioSession ! j"
    by blast
  then have u: "words (handleSubmitWord 1 scenarioSession) ! 2 = words scenarioSession ! 2"
    by (simp add: b)
  from frame have w: "map word (words (handleSubmitWord 1 scenarioSession)) = map word (words scenarioSession)"
    by blast
  show ?thesis
    by (simp only: a b c k e u w d simp_thms)
qed

subsection \<open>Invariants of the runs\<close>

lemma length_words_perform: "length (words (perform e s)) = length (words s)"
  by (cases e)
     (simp_all add: handleKeyPress_def handleBackspace_def handleSubmitWord_def revertFailed_def
        Let_def length_mapIndexed)

lemma length_words_step: "length (words (step e s)) = length (words s)"
  by (simp add: step_def length_words_perform)

lemma isBoundaryIndex_step: "isBoundaryIndex (step e s) i = isBoundaryIndex s i"
  by (simp add: isBoundaryIndex_def length_words_step)

lemma run_invariant:
  assumes "P s" and "\<And>e t. P t \<Longrightarrow> P (step e t)"
  shows "P (run es s)"
  using assms(1)
proof (induction es arbitrary: s)
  case Nil
  then show ?case by simp
next
  case (Cons e es)
  from Cons.prems have "P (step e s)" by (rule assms(2))
  then have "P (run es (step e s))" by (rule Cons.IH)
  then show ?case by simp
qed

lemma Board_lives: "render s = Board \<Longrightarrow> 0 < lives s"
  by (simp add: render_def isGameOver_def split: if_splits)

lemma lives_handleSubmitWord:
  "lives (handleSubmitWord index s) =
     (if isBoundaryIndex s index \<or> isCorrect (words s ! index) then lives s else lives s - 1)"
  by (simp add: handleSubmitWord_def)

lemma lives_step: "0 \<le> lives s \<Longrightarrow> 0 \<le> lives (step e s)"
proof (cases e)
  case (SubmitWord index)
  assume "0 \<le> lives s"
  then show ?thesis
    using SubmitWord Board_lives [of s]
    by (auto simp: step_def lives_handleSubmitWord)
qed (simp_all add: step_def handler_other_fields revertFailed_def)

lemma lives_initialize: "lives (initialize dataWords) = 5"
  by (simp add: initialize_def Let_def)

lemma lives_run: "0 \<le> lives (run es (initialize dataWords))"
  by (rule run_invariant) (simp_all add: lives_initialize lives_step)

lemma words_initialize:
  "words (initialize dataWords) = mapIndexed (initialWord (length dataWords)) dataWords"
  by (simp add: initialize_def Let_def)

lemma update_preserves:
  assumes "\<forall>w \<in> set xs. P w" and "i < length xs" and "P (xs ! i) \<Longrightarrow> P y"
  shows "\<forall>w \<in> set (xs[i := y]). P w"
proof
  fix w assume "w \<in> set (xs[i := y])"
  then have "w = y \<or> w \<in> set xs"
    using set_update_subset_insert [of xs i y] by blast
  moreover from assms(1,2) have "P (xs ! i)" by simp
  ultimately show "P w" using assms(1,3) by blast
qed

lemma cursor_typeInto:
  "hintsRevealed w \<le> currentIndex w \<Longrightarrow> hintsRevealed (typeInto key w) \<le> currentIndex (typeInto key w)"
  by (simp add: typeInto_def)

lemma cursor_eraseFrom:
  "max 1 (hintsRevealed w) < currentIndex w \<Longrightarrow> hintsRevealed (eraseFrom w) \<le> currentIndex (eraseFrom w)"
  by (simp add: eraseFrom_def, linarith)

lemma cursor_failWord: "hintsRevealed (failWord w) = currentIndex (failWord w)"
  by (simp add: failWord_def Let_def)

lemma cursor_handleKeyPress:
  assumes inv: "\<forall>w \<in> set (words s). hintsRevealed w \<le> currentIndex w"
  shows "\<forall>w \<in> set (words (handleKeyPress key s)). hintsRevealed w \<le> currentIndex w"
proof -
  from handleKeyPress_words [of key s] show ?thesis
  proof
    assume "words (handleKeyPress key s) = words s"
    with inv show ?thesis by simp
  next
    assume a: "selectedWordIndex s < length (words s) \<and>
      status (words s ! selectedWordIndex s) \<noteq> solved \<and>
      words (handleKeyPress key s) =
        (words s)[selectedWordIndex s := typeInto key (words s ! selectedWordIndex s)]"
    have "\<forall>w \<in> set ((words s)[selectedWordIndex s := typeInto key (words s ! selectedWordIndex s)]).
        hintsRevealed w \<le> currentIndex w"
      using inv a by (intro update_preserves) (simp_all add: cursor_typeInto)
    with a show ?thesis by simp
  qed
qed

lemma cursor_handleBackspace:
  assumes inv: "\<forall>w \<in> set (words s). hintsRevealed w \<le> currentIndex w"
  shows "\<forall>w \<in> set (words (handleBackspace s)). hintsRevealed w \<le> currentIndex w"
proof -
  from handleBackspace_words [of s] show ?thesis
  proof
    assume "words (handleBackspace s) = words s"
    with inv show ?thesis by simp
  next
    assume a: "selectedWordIndex s < length (words s) \<and>
      status (words s ! selectedWordIndex s) \<noteq> solved \<and>
      max 1 (hintsRevealed (words s ! selectedWordIndex s)) < currentIndex (words s ! selectedWordIndex s) \<and>
      words (handleBackspace s) =
        (words s)[selectedWordIndex s := eraseFrom (words s ! selectedWordIndex s)]"
    have "\<forall>w \<in> set ((words s)[selectedWordIndex s := eraseFrom (words s ! selectedWordIndex s)]).
        hintsRevealed w \<le> currentIndex w"
      using inv a by (intro update_preserves) (simp_all add: cursor_eraseFrom)
    with a show ?thesis by simp
  qed
qed

lemma cursor_handleSubmitWord:
  assumes inv: "\<forall>w \<in> set (words s). hintsRevealed w \<le> currentIndex w"
  shows "\<forall>w \<in> set (words (handleSubmitWord index s)). hintsRevealed w \<le> currentIndex w"
proof (cases "isBoundaryIndex s index")
  case True
  with inv show ?thesis by (simp add: handleSubmitWord_words)
next
  case False
  then have i: "index < length (words s)" by (rule not_boundary_less)
  show ?thesis
  proof (cases "isCorrect (words s ! index)")
    case True
    have "\<forall>w \<in> set ((words s)[index := (words s ! index)\<lparr>status := solved\<rparr>]).
        hintsRevealed w \<le> currentIndex w"
      using inv i by (intro update_preserves) simp_all
    with True False show ?thesis by (simp add: handleSubmitWord_words)
  next
    case wrong: False
    have "\<forall>w \<in> set ((words s)[index := failWord (words s ! index)]).
        hintsRevealed w \<le> currentIndex w"
      using inv i by (intro update_preserves) (simp_all add: cursor_failWord)
    with wrong False show ?thesis by (simp add: handleSubmitWord_words)
  qed
qed

lemma cursor_revertFailed:
  assumes inv: "\<forall>w \<in> set (words s). hintsRevealed w \<le> currentIndex w"
  shows "\<forall>w \<in> set (words (revertFailed index s)). hintsRevealed w \<le> currentIndex w"
proof (cases "index < length (words s) \<and> status (words s ! index) = failed")
  case False
  with inv show ?thesis by (auto simp: revertFailed_words)
next
  case True
  have "\<forall>w \<in> set ((words s)[index := (words s ! index)\<lparr>status := unsolved\<rparr>]).
      hintsRevealed w \<le> currentIndex w"
    using inv True by (intro update_preserves) simp_all
  with True show ?thesis by (simp add: revertFailed_words)
qed

lemma cursor_step:
  assumes inv: "\<forall>w \<in> set (words s). hintsRevealed w \<le> currentIndex w"
  shows "\<forall>w \<in> set (words (step e s)). hintsRevealed w \<le> currentIndex w"
proof (cases e)
  case (KeyPress key)
  with inv cursor_handleKeyPress [OF inv, of key] show ?thesis by (simp add: step_def)
next
  case Backspace
  with inv cursor_handleBackspace [OF inv] show ?thesis by (simp add: step_def)
next
  case (SubmitWord index)
  with inv cursor_handleSubmitWord [OF inv, of index] show ?thesis by (simp add: step_def)
next
  case (RevertFailed index)
  with inv cursor_revertFailed [OF inv, of index] show ?thesis by (simp add: step_def)
qed (use inv in \<open>simp_all add: step_def\<close>)

lemma cursor_initialize:
  "\<forall>w \<in> set (words (initialize dataWords)). hintsRevealed w \<le> currentIndex w"
  by (auto simp: words_initialize in_set_conv_nth length_mapIndexed nth_mapIndexed initialWord_def)

lemma cursor_run:
  "\<forall>w \<in> set (words (run es (initialize dataWords))). hintsRevealed w \<le> currentIndex w"
  by (rule run_invariant) (simp_all add: cursor_initialize cursor_step)

text \<open>
  Claim C7. In every state that a session reaches, \<open>isGameOver\<close> holds exactly when \<open>lives\<close>
  is 0. It is a function of \<open>lives\<close> alone: replacing the slots does not change it.
\<close>

theorem isGameOver_iff_no_lives:
  "(isGameOver (run es (initialize dataWords)) \<longleftrightarrow> lives (run es (initialize dataWords)) = 0) \<and>
   isGameOver (s\<lparr>words := slots\<rparr>) = isGameOver s"
  using lives_run [of es dataWords] by (auto simp: isGameOver_def)

theorem isGameOver_iff_no_lives_witness:
  "lives (run [KeyPress ''X'', SubmitWord 1, KeyPress ''X'', SubmitWord 1, KeyPress ''X'', SubmitWord 1,
        KeyPress ''X'', SubmitWord 1, KeyPress ''X'', SubmitWord 1, KeyPress ''X'', SubmitWord 1]
      (initialize [''GOOD'', ''TIME'', ''OUT'', ''SIDE'', ''WALK''])) = 0 \<and>
   isGameOver (run [KeyPress ''X'', SubmitWord 1, KeyPress ''X'', SubmitWord 1, KeyPress ''X'', SubmitWord 1,
        KeyPress ''X'', SubmitWord 1, KeyPress ''X'', SubmitWord 1, KeyPress ''X'', SubmitWord 1]
      (initialize [''GOOD'', ''TIME'', ''OUT'', ''SIDE'', ''WALK''])) \<and>
   lives (run [KeyPress ''X'', SubmitWord 1] (initialize [''GOOD'', ''TIME'', ''OUT'', ''SIDE'', ''WALK''])) = 4 \<and>
   \<not> isGameOver (run [KeyPress ''X'', SubmitWord 1] (initialize [''GOOD'', ''TIME'', ''OUT'', ''SIDE'', ''WALK'']))"
proof -
  have a: "lives (run [KeyPress ''X'', SubmitWord 1, KeyPress ''X'', SubmitWord 1, KeyPress ''X'', SubmitWord 1,
        KeyPress ''X'', SubmitWord 1, KeyPress ''X'', SubmitWord 1, KeyPress ''X'', SubmitWord 1]
      (initialize [''GOOD'', ''TIME'', ''OUT'', ''SIDE'', ''WALK''])) = 0"
    by code_simp
  have b: "lives (run [KeyPress ''X'', SubmitWord 1] (initialize [''GOOD'', ''TIME'', ''OUT'', ''SIDE'', ''WALK''])) = 4"
    by code_simp
  show ?thesis
    using isGameOver_iff_no_lives [of "[KeyPress ''X'', SubmitWord 1, KeyPress ''X'', SubmitWord 1, KeyPress ''X'', SubmitWord 1,
        KeyPress ''X'', SubmitWord 1, KeyPress ''X'', SubmitWord 1, KeyPress ''X'', SubmitWord 1]" "[''GOOD'', ''TIME'', ''OUT'', ''SIDE'', ''WALK'']"]
          isGameOver_iff_no_lives [of "[KeyPress ''X'', SubmitWord 1]" "[''GOOD'', ''TIME'', ''OUT'', ''SIDE'', ''WALK'']"]
          a b
    by (simp del: run.simps)
qed

text \<open>
  With an empty solution word a wrong guess leaves \<open>hintsRevealed\<close> at 0. After one key the
  cursor is 1, above \<open>hintsRevealed\<close>, the slot is neither a boundary nor solved, and
  backspace still does nothing: it stops at \<open>max 1 hintsRevealed\<close>.
\<close>

theorem handleBackspace_stops_at_first_cell:
  "selectedWordIndex blankWordSession = 1 \<and>
   \<not> isBoundaryIndex blankWordSession 1 \<and>
   status (words blankWordSession ! 1) = solving \<and>
   hintsRevealed (words blankWordSession ! 1) = 0 \<and>
   currentIndex (words blankWordSession ! 1) = 1 \<and>
   handleBackspace blankWordSession = blankWordSession"
  by code_simp

lemma handleBackspace_noop:
  "isBoundaryIndex s (selectedWordIndex s) \<or>
   status (words s ! selectedWordIndex s) = solved \<or>
   currentIndex (words s ! selectedWordIndex s) \<le> max 1 (hintsRevealed (words s ! selectedWordIndex s)) \<Longrightarrow>
   handleBackspace s = s"
  by (auto simp: handleBackspace_def Let_def)

lemma handleBackspace_erases:
  assumes "\<not> isBoundaryIndex s (selectedWordIndex s)"
    and "status (words s ! selectedWordIndex s) \<noteq> solved"
    and "max 1 (hintsRevealed (words s ! selectedWordIndex s)) < currentIndex (words s ! selectedWordIndex s)"
  shows "handleBackspace s =
     s\<lparr>words := (words s)[selectedWordIndex s := eraseFrom (words s ! selectedWordIndex s)]\<rparr>"
  using assms not_boundary_less [OF assms(1)]
  by (auto simp: handleBackspace_def Let_def mapIndexed_at)

text \<open>
  Claim C6, amended. Backspace does nothing when the selected slot is a boundary index, is
  solved, or has its cursor at or below \<open>max 1 hintsRevealed\<close>. Otherwise it changes only
  the selected slot: the cursor goes down by 1, the cell at the new cursor becomes the empty
  string, the other cells, the status and \<open>hintsRevealed\<close> stay, and the new cursor is not
  below \<open>hintsRevealed\<close>. In every state a session reaches, every slot has its cursor at or
  above its \<open>hintsRevealed\<close>.
\<close>

theorem handleBackspace_cases:
  "(isBoundaryIndex s (selectedWordIndex s) \<or>
    status (words s ! selectedWordIndex s) = solved \<or>
    currentIndex (words s ! selectedWordIndex s) \<le> max 1 (hintsRevealed (words s ! selectedWordIndex s)) \<longrightarrow>
      handleBackspace s = s) \<and>
   (\<not> isBoundaryIndex s (selectedWordIndex s) \<and>
    status (words s ! selectedWordIndex s) \<noteq> solved \<and>
    max 1 (hintsRevealed (words s ! selectedWordIndex s)) < currentIndex (words s ! selectedWordIndex s) \<longrightarrow>
      handleBackspace s =
        s\<lparr>words := (words s)[selectedWordIndex s := eraseFrom (words s ! selectedWordIndex s)]\<rparr> \<and>
      currentIndex (words (handleBackspace s) ! selectedWordIndex s) =
        currentIndex (words s ! selectedWordIndex s) - 1 \<and>
      userInput (words (handleBackspace s) ! selectedWordIndex s) !
        (currentIndex (words s ! selectedWordIndex s) - 1) = Some [] \<and>
      (\<forall>j < length (userInput (words s ! selectedWordIndex s)).
         j \<noteq> currentIndex (words s ! selectedWordIndex s) - 1 \<longrightarrow>
         userInput (words (handleBackspace s) ! selectedWordIndex s) ! j =
           userInput (words s ! selectedWordIndex s) ! j) \<and>
      status (words (handleBackspace s) ! selectedWordIndex s) = status (words s ! selectedWordIndex s) \<and>
      hintsRevealed (words (handleBackspace s) ! selectedWordIndex s) =
        hintsRevealed (words s ! selectedWordIndex s) \<and>
      hintsRevealed (words (handleBackspace s) ! selectedWordIndex s) \<le>
        currentIndex (words (handleBackspace s) ! selectedWordIndex s)) \<and>
   (\<forall>w \<in> set (words (run es (initialize dataWords))). hintsRevealed w \<le> currentIndex w)"
proof (intro conjI impI)
  assume "isBoundaryIndex s (selectedWordIndex s) \<or>
    status (words s ! selectedWordIndex s) = solved \<or>
    currentIndex (words s ! selectedWordIndex s) \<le> max 1 (hintsRevealed (words s ! selectedWordIndex s))"
  then show "handleBackspace s = s" by (rule handleBackspace_noop)
next
  assume a: "\<not> isBoundaryIndex s (selectedWordIndex s) \<and>
    status (words s ! selectedWordIndex s) \<noteq> solved \<and>
    max 1 (hintsRevealed (words s ! selectedWordIndex s)) < currentIndex (words s ! selectedWordIndex s)"
  then have i: "selectedWordIndex s < length (words s)"
    by (simp add: not_boundary_less)
  from a have e: "handleBackspace s =
      s\<lparr>words := (words s)[selectedWordIndex s := eraseFrom (words s ! selectedWordIndex s)]\<rparr>"
    by (simp add: handleBackspace_erases)
  then show "handleBackspace s =
      s\<lparr>words := (words s)[selectedWordIndex s := eraseFrom (words s ! selectedWordIndex s)]\<rparr>" .
  from e i have w: "words (handleBackspace s) ! selectedWordIndex s = eraseFrom (words s ! selectedWordIndex s)"
    by simp
  show "currentIndex (words (handleBackspace s) ! selectedWordIndex s) =
        currentIndex (words s ! selectedWordIndex s) - 1"
    by (simp add: w eraseFrom_def)
  show "userInput (words (handleBackspace s) ! selectedWordIndex s) !
        (currentIndex (words s ! selectedWordIndex s) - 1) = Some []"
    by (simp add: w eraseFrom_def nth_arraySet_same)
  show "\<forall>j < length (userInput (words s ! selectedWordIndex s)).
         j \<noteq> currentIndex (words s ! selectedWordIndex s) - 1 \<longrightarrow>
         userInput (words (handleBackspace s) ! selectedWordIndex s) ! j =
           userInput (words s ! selectedWordIndex s) ! j"
    by (simp add: w eraseFrom_def nth_arraySet_other)
  show "status (words (handleBackspace s) ! selectedWordIndex s) = status (words s ! selectedWordIndex s)"
    by (simp add: w status_eraseFrom)
  show "hintsRevealed (words (handleBackspace s) ! selectedWordIndex s) =
        hintsRevealed (words s ! selectedWordIndex s)"
    by (simp add: w hints_eraseFrom)
  from a show "hintsRevealed (words (handleBackspace s) ! selectedWordIndex s) \<le>
        currentIndex (words (handleBackspace s) ! selectedWordIndex s)"
    by (simp add: w cursor_eraseFrom)
next
  show "\<forall>w \<in> set (words (run es (initialize dataWords))). hintsRevealed w \<le> currentIndex w"
    by (rule cursor_run)
qed


theorem handleBackspace_cases_witness:
  "selectedWordIndex scenarioSession = 1 \<and>
   currentIndex (words scenarioSession ! 1) = 1 \<and>
   hintsRevealed (words scenarioSession ! 1) = 1 \<and>
   handleBackspace scenarioSession = scenarioSession \<and>
   selectedWordIndex (handleKeyPress ''i'' scenarioSession) = 1 \<and>
   \<not> isBoundaryIndex (handleKeyPress ''i'' scenarioSession) 1 \<and>
   status (words (handleKeyPress ''i'' scenarioSession) ! 1) = solving \<and>
   currentIndex (words (handleKeyPress ''i'' scenarioSession) ! 1) = 2 \<and>
   currentIndex (words (handleBackspace (handleKeyPress ''i'' scenarioSession)) ! 1) = 1 \<and>
   userInput (words (handleBackspace (handleKeyPress ''i'' scenarioSession)) ! 1) ! 1 = Some [] \<and>
   list_all (\<lambda>w. hintsRevealed w \<le> currentIndex w)
     (words (run [KeyPress ''i'', Backspace, Backspace] (initialize [''GOOD'', ''TIME'', ''OUT'', ''SIDE'', ''WALK''])))"
proof -
  have sel: "selectedWordIndex scenarioSession = 1"
    and cur: "currentIndex (words scenarioSession ! 1) = 1"
    and hin: "hintsRevealed (words scenarioSession ! 1) = 1"
    by code_simp+
  have sel': "selectedWordIndex (handleKeyPress ''i'' scenarioSession) = 1"
    and nb: "\<not> isBoundaryIndex (handleKeyPress ''i'' scenarioSession) 1"
    and st: "status (words (handleKeyPress ''i'' scenarioSession) ! 1) = solving"
    and cur': "currentIndex (words (handleKeyPress ''i'' scenarioSession) ! 1) = 2"
    and hin': "hintsRevealed (words (handleKeyPress ''i'' scenarioSession) ! 1) = 1"
    by code_simp+
  note noop = handleBackspace_cases [of scenarioSession "[]" "[]", THEN conjunct1]
  have n: "handleBackspace scenarioSession = scenarioSession"
    using noop sel cur hin by simp
  note erase = handleBackspace_cases [of "handleKeyPress ''i'' scenarioSession" "[]" "[]",
      THEN conjunct2, THEN conjunct1]
  have prem: "\<not> isBoundaryIndex (handleKeyPress ''i'' scenarioSession)
        (selectedWordIndex (handleKeyPress ''i'' scenarioSession)) \<and>
      status (words (handleKeyPress ''i'' scenarioSession) !
        selectedWordIndex (handleKeyPress ''i'' scenarioSession)) \<noteq> solved \<and>
      max 1 (hintsRevealed (words (handleKeyPress ''i'' scenarioSession) !
        selectedWordIndex (handleKeyPress ''i'' scenarioSession)))
      < currentIndex (words (handleKeyPress ''i'' scenarioSession) !
        selectedWordIndex (handleKeyPress ''i'' scenarioSession))"
    using nb st cur' hin' by (simp add: sel')
  from erase [THEN mp, OF prem] have
    "currentIndex (words (handleBackspace (handleKeyPress ''i'' scenarioSession)) !
        selectedWordIndex (handleKeyPress ''i'' scenarioSession)) =
      currentIndex (words (handleKeyPress ''i'' scenarioSession) !
        selectedWordIndex (handleKeyPress ''i'' scenarioSession)) - 1"
    and "userInput (words (handleBackspace (handleKeyPress ''i'' scenarioSession)) !
        selectedWordIndex (handleKeyPress ''i'' scenarioSession)) !
      (currentIndex (words (handleKeyPress ''i'' scenarioSession) !
        selectedWordIndex (handleKeyPress ''i'' scenarioSession)) - 1) = Some []"
    by blast+
  then have e: "currentIndex (words (handleBackspace (handleKeyPress ''i'' scenarioSession)) ! 1) = 1"
    "userInput (words (handleBackspace (handleKeyPress ''i'' scenarioSession)) ! 1) ! 1 = Some []"
    using sel' cur' by simp_all
  note inv = handleBackspace_cases [of scenarioSession "[KeyPress ''i'', Backspace, Backspace]"
      "[''GOOD'', ''TIME'', ''OUT'', ''SIDE'', ''WALK'']", THEN conjunct2, THEN conjunct2]
  have i: "list_all (\<lambda>w. hintsRevealed w \<le> currentIndex w)
     (words (run [KeyPress ''i'', Backspace, Backspace] (initialize [''GOOD'', ''TIME'', ''OUT'', ''SIDE'', ''WALK''])))"
    using inv by (simp only: list_all_iff)
  show ?thesis
    by (intro conjI sel cur hin n sel' nb st cur' e i)
qed

subsection \<open>A wrong guess\<close>

lemma fillHints_Suc:
  "fillHints w (Suc n) inp = arraySet (fillHints w n inp) n (charAt w n)"
  by (simp add: fillHints_def)

lemma fillHints_cells:
  "n \<le> length (fillHints w n inp) \<and> (\<forall>j < n. fillHints w n inp ! j = charAt w j)"
proof (induction n)
  case 0
  show ?case by (simp add: fillHints_def)
next
  case (Suc n)
  have len: "Suc n \<le> length (fillHints w (Suc n) inp)"
    by (simp add: fillHints_Suc length_arraySet)
  have cells: "fillHints w (Suc n) inp ! j = charAt w j" if "j < Suc n" for j
  proof (cases "j = n")
    case True
    then show ?thesis by (simp add: fillHints_Suc nth_arraySet_same)
  next
    case False
    with that have "j < n" by simp
    with Suc.IH have "j < length (fillHints w n inp)" "fillHints w n inp ! j = charAt w j"
      by auto
    with False show ?thesis by (simp add: fillHints_Suc nth_arraySet_other)
  qed
  from len cells show ?case by blast
qed

lemma failWord_fields:
  "status (failWord w) = failed"
  "hintsRevealed (failWord w) = min (hintsRevealed w + 1) (length (word w))"
  "currentIndex (failWord w) = hintsRevealed (failWord w)"
  "userInput (failWord w) = fillHints (word w) (hintsRevealed (failWord w)) emptyInput"
  by (simp_all add: failWord_def Let_def)

lemma failWord_prefix:
  "hintsRevealed (failWord w) \<le> length (userInput (failWord w)) \<and>
   (\<forall>j < hintsRevealed (failWord w). userInput (failWord w) ! j = Some [word w ! j])"
proof -
  have "hintsRevealed (failWord w) \<le> length (word w)"
    by (simp add: failWord_fields)
  then have "charAt (word w) j = Some [word w ! j]" if "j < hintsRevealed (failWord w)" for j
    using that by (simp add: charAt_def)
  with fillHints_cells [of "hintsRevealed (failWord w)" "word w" emptyInput]
  show ?thesis by (simp add: failWord_fields(4))
qed

subsection \<open>Correct guesses and solved slots\<close>

lemma step_slot_cases:
  assumes i: "i < length (words s)"
  shows "words (step e s) ! i = words s ! i \<or>
    (status (words s ! i) \<noteq> solved \<and> (\<exists>key. words (step e s) ! i = typeInto key (words s ! i))) \<or>
    (status (words s ! i) \<noteq> solved \<and> words (step e s) ! i = eraseFrom (words s ! i)) \<or>
    (\<not> isBoundaryIndex s i \<and> isCorrect (words s ! i) \<and>
       words (step e s) ! i = (words s ! i)\<lparr>status := solved\<rparr>) \<or>
    (\<not> isBoundaryIndex s i \<and> \<not> isCorrect (words s ! i) \<and>
       words (step e s) ! i = failWord (words s ! i)) \<or>
    (status (words s ! i) = failed \<and> words (step e s) ! i = (words s ! i)\<lparr>status := unsolved\<rparr>)"
proof (cases "enabled e s")
  case False
  then show ?thesis by (simp add: step_def)
next
  case True
  then have st: "step e s = perform e s" by (simp add: step_def)
  show ?thesis
  proof (cases e)
    case (KeyPress key)
    with st have st': "words (step e s) = words (handleKeyPress key s)" by simp
    from handleKeyPress_words [of key s] show ?thesis
    proof
      assume "words (handleKeyPress key s) = words s"
      then show ?thesis by (simp add: st')
    next
      assume a: "selectedWordIndex s < length (words s) \<and>
        status (words s ! selectedWordIndex s) \<noteq> solved \<and>
        words (handleKeyPress key s) =
          (words s)[selectedWordIndex s := typeInto key (words s ! selectedWordIndex s)]"
      show ?thesis
      proof (cases "i = selectedWordIndex s")
        case True
        with a i have "status (words s ! i) \<noteq> solved \<and>
            words (step e s) ! i = typeInto key (words s ! i)"
          by (simp add: st')
        then show ?thesis by blast
      next
        case False
        with a i have "words (step e s) ! i = words s ! i"
          by (simp add: st')
        then show ?thesis by blast
      qed
    qed
  next
    case Backspace
    with st have st': "words (step e s) = words (handleBackspace s)" by simp
    from handleBackspace_words [of s] show ?thesis
    proof
      assume "words (handleBackspace s) = words s"
      then show ?thesis by (simp add: st')
    next
      assume a: "selectedWordIndex s < length (words s) \<and>
        status (words s ! selectedWordIndex s) \<noteq> solved \<and>
        max 1 (hintsRevealed (words s ! selectedWordIndex s)) < currentIndex (words s ! selectedWordIndex s) \<and>
        words (handleBackspace s) =
          (words s)[selectedWordIndex s := eraseFrom (words s ! selectedWordIndex s)]"
      show ?thesis
      proof (cases "i = selectedWordIndex s")
        case True
        with a i have "status (words s ! i) \<noteq> solved \<and> words (step e s) ! i = eraseFrom (words s ! i)"
          by (simp add: st')
        then show ?thesis by blast
      next
        case False
        with a i have "words (step e s) ! i = words s ! i"
          by (simp add: st')
        then show ?thesis by blast
      qed
    qed
  next
    case (SubmitWord index)
    with st have st': "words (step e s) = words (handleSubmitWord index s)" by simp
    show ?thesis
    proof (cases "i = index \<and> \<not> isBoundaryIndex s index")
      case False
      with i have "words (step e s) ! i = words s ! i"
        by (auto simp: st' handleSubmitWord_words)
      then show ?thesis by blast
    next
      case True
      show ?thesis
      proof (cases "isCorrect (words s ! i)")
        case True
        with \<open>i = index \<and> \<not> isBoundaryIndex s index\<close> i
        have "\<not> isBoundaryIndex s i \<and> isCorrect (words s ! i) \<and>
            words (step e s) ! i = (words s ! i)\<lparr>status := solved\<rparr>"
          by (simp add: st' handleSubmitWord_words)
        then show ?thesis by blast
      next
        case False
        with \<open>i = index \<and> \<not> isBoundaryIndex s index\<close> i
        have "\<not> isBoundaryIndex s i \<and> \<not> isCorrect (words s ! i) \<and>
            words (step e s) ! i = failWord (words s ! i)"
          by (simp add: st' handleSubmitWord_words)
        then show ?thesis by blast
      qed
    qed
  next
    case (RevertFailed index)
    with st have st': "words (step e s) = words (revertFailed index s)" by simp
    show ?thesis
    proof (cases "i = index \<and> status (words s ! index) = failed")
      case True
      with i have "status (words s ! i) = failed \<and>
          words (step e s) ! i = (words s ! i)\<lparr>status := unsolved\<rparr>"
        by (simp add: st' revertFailed_words)
      then show ?thesis by blast
    next
      case False
      with i have "words (step e s) ! i = words s ! i"
        by (auto simp: st' revertFailed_words)
      then show ?thesis by blast
    qed
  qed (use st in \<open>simp_all\<close>)
qed

lemma isCorrect_status: "isCorrect (w\<lparr>status := x\<rparr>) = isCorrect w"
  by (simp add: isCorrect_def)

lemma status_typeInto: "status (typeInto key w) = solving"
  by (simp add: typeInto_def)

lemma solved_step:
  assumes inv: "\<forall>i. \<not> isBoundaryIndex s i \<longrightarrow> status (words s ! i) = solved \<longrightarrow> isCorrect (words s ! i)"
  shows "\<forall>i. \<not> isBoundaryIndex (step e s) i \<longrightarrow> status (words (step e s) ! i) = solved \<longrightarrow>
    isCorrect (words (step e s) ! i)"
proof (intro allI impI)
  fix i
  assume "\<not> isBoundaryIndex (step e s) i"
  then have nb: "\<not> isBoundaryIndex s i" by (simp add: isBoundaryIndex_step)
  then have i: "i < length (words s)" by (rule not_boundary_less)
  assume sol: "status (words (step e s) ! i) = solved"
  from inv nb have q: "status (words s ! i) = solved \<longrightarrow> isCorrect (words s ! i)" by blast
  from step_slot_cases [OF i, of e] sol q show "isCorrect (words (step e s) ! i)"
    by (auto simp: status_typeInto status_eraseFrom failWord_fields isCorrect_status)
qed

lemma solved_initialize:
  "\<forall>i. \<not> isBoundaryIndex (initialize dataWords) i \<longrightarrow>
     status (words (initialize dataWords) ! i) = solved \<longrightarrow> isCorrect (words (initialize dataWords) ! i)"
  by (auto simp: isBoundaryIndex_def words_initialize length_mapIndexed nth_mapIndexed initialWord_def)

lemma solved_run:
  "\<forall>i. \<not> isBoundaryIndex (run es (initialize dataWords)) i \<longrightarrow>
     status (words (run es (initialize dataWords)) ! i) = solved \<longrightarrow>
     isCorrect (words (run es (initialize dataWords)) ! i)"
proof (rule run_invariant [where P = "\<lambda>s. \<forall>i. \<not> isBoundaryIndex s i \<longrightarrow>
        status (words s ! i) = solved \<longrightarrow> isCorrect (words s ! i)"])
  show "\<forall>i. \<not> isBoundaryIndex (initialize dataWords) i \<longrightarrow>
     status (words (initialize dataWords) ! i) = solved \<longrightarrow> isCorrect (words (initialize dataWords) ! i)"
    by (rule solved_initialize)
next
  fix e t
  assume "\<forall>i. \<not> isBoundaryIndex t i \<longrightarrow> status (words t ! i) = solved \<longrightarrow> isCorrect (words t ! i)"
  then show "\<forall>i. \<not> isBoundaryIndex (step e t) i \<longrightarrow> status (words (step e t) ! i) = solved \<longrightarrow>
    isCorrect (words (step e t) ! i)"
    by (rule solved_step)
qed

lemma solved_stays:
  assumes inv: "\<forall>i. \<not> isBoundaryIndex s i \<longrightarrow> status (words s ! i) = solved \<longrightarrow> isCorrect (words s ! i)"
    and i: "i < length (words s)" and sol: "status (words s ! i) = solved"
  shows "status (words (step e s) ! i) = solved"
  using step_slot_cases [OF i, of e] sol inv
  by (auto simp: failWord_fields)


lemma handleSubmitWord_correct_step:
  assumes nb: "\<not> isBoundaryIndex s index" and c: "isCorrect (words s ! index)"
  shows "lives (handleSubmitWord index s) = lives s"
    and "totalGuesses (handleSubmitWord index s) = totalGuesses s + 1"
    and "words (handleSubmitWord index s) = (words s)[index := (words s ! index)\<lparr>status := solved\<rparr>]"
    and "status (words (handleSubmitWord index s) ! index) = solved"
    and "\<not> isBoundaryIndex (handleSubmitWord index s) index"
    and "isCorrect (words (handleSubmitWord index s) ! index)"
  using nb c not_boundary_less [OF nb]
  by (simp_all add: lives_handleSubmitWord handleSubmitWord_words isCorrect_status)
     (simp_all add: handleSubmitWord_def isBoundaryIndex_def length_mapIndexed)

lemma handleSubmitWord_solved_noop:
  assumes nb: "\<not> isBoundaryIndex s index" and c: "isCorrect (words s ! index)"
    and sol: "status (words s ! index) = solved"
  shows "words (handleSubmitWord index s) = words s"
proof -
  from sol have "(words s ! index)\<lparr>status := solved\<rparr> = words s ! index" by simp
  with handleSubmitWord_correct_step(3) [OF nb c] show ?thesis by simp
qed

text \<open>
  Claim C5. A submit of an interior slot whose guess is right leaves \<open>lives\<close> as it is,
  counts one guess and sets the slot's status to solved; a second submit changes neither
  \<open>lives\<close> nor the slots. In every state a session reaches, a submit at the index of a
  solved interior slot leaves the slots and \<open>lives\<close> as they are and counts one guess, and a
  solved slot stays solved under every event, so a slot becomes solved once.
\<close>

theorem handleSubmitWord_correct:
  "(\<not> isBoundaryIndex s index \<and> isCorrect (words s ! index) \<longrightarrow>
      lives (handleSubmitWord index s) = lives s \<and>
      totalGuesses (handleSubmitWord index s) = totalGuesses s + 1 \<and>
      words (handleSubmitWord index s) = (words s)[index := (words s ! index)\<lparr>status := solved\<rparr>] \<and>
      status (words (handleSubmitWord index s) ! index) = solved \<and>
      lives (handleSubmitWord index (handleSubmitWord index s)) = lives s \<and>
      words (handleSubmitWord index (handleSubmitWord index s)) = words (handleSubmitWord index s)) \<and>
   (\<not> isBoundaryIndex (run es (initialize dataWords)) index \<and>
    status (words (run es (initialize dataWords)) ! index) = solved \<longrightarrow>
      words (handleSubmitWord index (run es (initialize dataWords))) = words (run es (initialize dataWords)) \<and>
      lives (handleSubmitWord index (run es (initialize dataWords))) = lives (run es (initialize dataWords)) \<and>
      totalGuesses (handleSubmitWord index (run es (initialize dataWords))) =
        totalGuesses (run es (initialize dataWords)) + 1) \<and>
   (i < length (words (run es (initialize dataWords))) \<and>
    status (words (run es (initialize dataWords)) ! i) = solved \<longrightarrow>
      status (words (step e (run es (initialize dataWords))) ! i) = solved)"
proof (intro conjI impI)
  assume a: "\<not> isBoundaryIndex s index \<and> isCorrect (words s ! index)"
  then have nb: "\<not> isBoundaryIndex s index" and c: "isCorrect (words s ! index)" by simp_all
  note first = handleSubmitWord_correct_step [OF nb c]
  note second = handleSubmitWord_correct_step [OF first(5) first(6)]
  show "lives (handleSubmitWord index s) = lives s" by (rule first(1))
  show "totalGuesses (handleSubmitWord index s) = totalGuesses s + 1" by (rule first(2))
  show "words (handleSubmitWord index s) = (words s)[index := (words s ! index)\<lparr>status := solved\<rparr>]"
    by (rule first(3))
  show "status (words (handleSubmitWord index s) ! index) = solved" by (rule first(4))
  show "lives (handleSubmitWord index (handleSubmitWord index s)) = lives s"
    by (simp only: second(1) first(1))
  show "words (handleSubmitWord index (handleSubmitWord index s)) = words (handleSubmitWord index s)"
    by (rule handleSubmitWord_solved_noop [OF first(5) first(6) first(4)])
next
  let ?r = "run es (initialize dataWords)"
  assume a: "\<not> isBoundaryIndex ?r index \<and> status (words ?r ! index) = solved"
  with solved_run [of es dataWords] have c: "isCorrect (words ?r ! index)" by blast
  from a have nb: "\<not> isBoundaryIndex ?r index" and sol: "status (words ?r ! index) = solved"
    by simp_all
  show "words (handleSubmitWord index ?r) = words ?r"
    by (rule handleSubmitWord_solved_noop [OF nb c sol])
  show "lives (handleSubmitWord index ?r) = lives ?r"
    by (rule handleSubmitWord_correct_step(1) [OF nb c])
  show "totalGuesses (handleSubmitWord index ?r) = totalGuesses ?r + 1"
    by (rule handleSubmitWord_correct_step(2) [OF nb c])
next
  let ?r = "run es (initialize dataWords)"
  assume a: "i < length (words ?r) \<and> status (words ?r ! i) = solved"
  then show "status (words (step e ?r) ! i) = solved"
    using solved_stays [OF solved_run [of es dataWords], of i e] by blast
qed


theorem handleSubmitWord_correct_witness:
  "\<not> isBoundaryIndex typedWordSession 1 \<and>
   isCorrect (words typedWordSession ! 1) \<and>
   lives typedWordSession = 5 \<and>
   totalGuesses typedWordSession = 0 \<and>
   lives (handleSubmitWord 1 typedWordSession) = 5 \<and>
   totalGuesses (handleSubmitWord 1 typedWordSession) = 1 \<and>
   status (words (handleSubmitWord 1 typedWordSession) ! 1) = solved \<and>
   \<not> isBoundaryIndex solvedWordSession 1 \<and>
   status (words solvedWordSession ! 1) = solved \<and>
   totalGuesses solvedWordSession = 1 \<and>
   words (handleSubmitWord 1 solvedWordSession) = words solvedWordSession \<and>
   lives (handleSubmitWord 1 solvedWordSession) = lives solvedWordSession \<and>
   totalGuesses (handleSubmitWord 1 solvedWordSession) = 2 \<and>
   status (words (step (KeyPress ''x'') solvedWordSession) ! 1) = solved"
proof -
  have t: "\<not> isBoundaryIndex typedWordSession 1" "isCorrect (words typedWordSession ! 1)"
    "lives typedWordSession = 5" "totalGuesses typedWordSession = 0"
    by code_simp+
  have r: "\<not> isBoundaryIndex solvedWordSession 1" "status (words solvedWordSession ! 1) = solved"
    "totalGuesses solvedWordSession = 1"
    by code_simp+
  have len: "1 < length (words solvedWordSession)"
    by code_simp
  note first = handleSubmitWord_correct [of typedWordSession 1 "[]" "[]" 0 Tick, THEN conjunct1]
  note again = handleSubmitWord_correct [of typedWordSession 1
      "[KeyPress ''i'', KeyPress ''m'', KeyPress ''e'', SubmitWord 1]"
      "[''GOOD'', ''TIME'', ''OUT'', ''SIDE'', ''WALK'']" 1 "KeyPress ''x''",
      THEN conjunct2, folded solvedWordSession_def]
  note f = first [THEN mp, OF conjI [OF t(1) t(2)]]
  from f have "lives (handleSubmitWord 1 typedWordSession) = lives typedWordSession"
    and "totalGuesses (handleSubmitWord 1 typedWordSession) = totalGuesses typedWordSession + 1"
    and a3: "status (words (handleSubmitWord 1 typedWordSession) ! 1) = solved"
    by blast+
  with t(3,4) have a: "lives (handleSubmitWord 1 typedWordSession) = 5"
    "totalGuesses (handleSubmitWord 1 typedWordSession) = 1"
    "status (words (handleSubmitWord 1 typedWordSession) ! 1) = solved"
    by simp_all
  note g = again [THEN conjunct1, THEN mp, OF conjI [OF r(1) r(2)]]
  note h = again [THEN conjunct2, THEN mp, OF conjI [OF len r(2)]]
  from g have b1: "words (handleSubmitWord 1 solvedWordSession) = words solvedWordSession"
    and b2: "lives (handleSubmitWord 1 solvedWordSession) = lives solvedWordSession"
    and "totalGuesses (handleSubmitWord 1 solvedWordSession) = totalGuesses solvedWordSession + 1"
    by blast+
  with r(3) have b3: "totalGuesses (handleSubmitWord 1 solvedWordSession) = 2"
    by simp
  note b = b1 b2 b3 h
  show ?thesis
    by (intro conjI t r a b)
qed

subsection \<open>The page component without hints\<close>

lemma not_boundary0_less: "\<not> isBoundaryIndex0 s i \<Longrightarrow> i < length (words0 s)"
  by (simp add: isBoundaryIndex0_def)

lemma handleKeyPress0_words:
  "words0 (handleKeyPress0 key s) = words0 s \<or>
   (selectedWordIndex0 s < length (words0 s) \<and>
    status0 (words0 s ! selectedWordIndex0 s) \<noteq> solved \<and>
    words0 (handleKeyPress0 key s) =
      (words0 s)[selectedWordIndex0 s := typeInto0 key (words0 s ! selectedWordIndex0 s)])"
  by (auto simp: handleKeyPress0_def Let_def mapIndexed_at dest: not_boundary0_less)

lemma handleBackspace0_words:
  "words0 (handleBackspace0 s) = words0 s \<or>
   (selectedWordIndex0 s < length (words0 s) \<and>
    status0 (words0 s ! selectedWordIndex0 s) \<noteq> solved \<and>
    1 < currentIndex0 (words0 s ! selectedWordIndex0 s) \<and>
    words0 (handleBackspace0 s) =
      (words0 s)[selectedWordIndex0 s := eraseFrom0 (words0 s ! selectedWordIndex0 s)])"
  by (auto simp: handleBackspace0_def Let_def mapIndexed_at dest: not_boundary0_less)

lemma handleSubmitWord0_words:
  "words0 (handleSubmitWord0 index s) =
     (if isBoundaryIndex0 s index then words0 s
      else if isCorrect0 (words0 s ! index) then (words0 s)[index := (words0 s ! index)\<lparr>status0 := solved\<rparr>]
      else (words0 s)[index := failWord0 (words0 s ! index)])"
  by (auto simp: handleSubmitWord0_def mapIndexed_at dest: not_boundary0_less)

lemma lives0_handleSubmitWord0:
  "lives0 (handleSubmitWord0 index s) =
     (if isBoundaryIndex0 s index \<or> isCorrect0 (words0 s ! index) then lives0 s else lives0 s - 1)"
  by (simp add: handleSubmitWord0_def)

text \<open>The handlers of \<^verbatim>\<open>page.tsx\<close> keep the same frame as the handlers with hints.\<close>

lemma page_handlers_frame:
  "length (words0 (handleKeyPress0 key s)) = length (words0 s)"
  "\<forall>j < length (words0 s). j \<noteq> selectedWordIndex0 s \<longrightarrow> words0 (handleKeyPress0 key s) ! j = words0 s ! j"
  "map word0 (words0 (handleKeyPress0 key s)) = map word0 (words0 s)"
  "lives0 (handleKeyPress0 key s) = lives0 s"
  "totalGuesses0 (handleKeyPress0 key s) = totalGuesses0 s"
  "selectedWordIndex0 (handleKeyPress0 key s) = selectedWordIndex0 s"
  "length (words0 (handleBackspace0 s)) = length (words0 s)"
  "\<forall>j < length (words0 s). j \<noteq> selectedWordIndex0 s \<longrightarrow> words0 (handleBackspace0 s) ! j = words0 s ! j"
  "map word0 (words0 (handleBackspace0 s)) = map word0 (words0 s)"
  "lives0 (handleBackspace0 s) = lives0 s"
  "totalGuesses0 (handleBackspace0 s) = totalGuesses0 s"
  "selectedWordIndex0 (handleBackspace0 s) = selectedWordIndex0 s"
  "length (words0 (handleSubmitWord0 index s)) = length (words0 s)"
  "\<forall>j < length (words0 s). j \<noteq> index \<longrightarrow> words0 (handleSubmitWord0 index s) ! j = words0 s ! j"
  "map word0 (words0 (handleSubmitWord0 index s)) = map word0 (words0 s)"
proof -
  show "length (words0 (handleKeyPress0 key s)) = length (words0 s)"
    "\<forall>j < length (words0 s). j \<noteq> selectedWordIndex0 s \<longrightarrow> words0 (handleKeyPress0 key s) ! j = words0 s ! j"
    "map word0 (words0 (handleKeyPress0 key s)) = map word0 (words0 s)"
    using handleKeyPress0_words [of key s]
    by (auto simp: map_update_same typeInto0_def)
  show "length (words0 (handleBackspace0 s)) = length (words0 s)"
    "\<forall>j < length (words0 s). j \<noteq> selectedWordIndex0 s \<longrightarrow> words0 (handleBackspace0 s) ! j = words0 s ! j"
    "map word0 (words0 (handleBackspace0 s)) = map word0 (words0 s)"
    using handleBackspace0_words [of s]
    by (auto simp: map_update_same eraseFrom0_def)
  show "length (words0 (handleSubmitWord0 index s)) = length (words0 s)"
    "\<forall>j < length (words0 s). j \<noteq> index \<longrightarrow> words0 (handleSubmitWord0 index s) ! j = words0 s ! j"
    "map word0 (words0 (handleSubmitWord0 index s)) = map word0 (words0 s)"
    by (auto simp: handleSubmitWord0_words map_update_same failWord0_def dest: not_boundary0_less)
  show "lives0 (handleKeyPress0 key s) = lives0 s"
    "totalGuesses0 (handleKeyPress0 key s) = totalGuesses0 s"
    "selectedWordIndex0 (handleKeyPress0 key s) = selectedWordIndex0 s"
    "lives0 (handleBackspace0 s) = lives0 s"
    "totalGuesses0 (handleBackspace0 s) = totalGuesses0 s"
    "selectedWordIndex0 (handleBackspace0 s) = selectedWordIndex0 s"
    by (simp_all add: handleKeyPress0_def handleBackspace0_def Let_def)
qed

text \<open>In \<^verbatim>\<open>page.tsx\<close> backspace stops at the first cell, and a wrong guess takes one life
  and resets the slot to its first letter; a right guess takes no life.\<close>

lemma page_handleBackspace_cases:
  "(isBoundaryIndex0 s (selectedWordIndex0 s) \<or>
    status0 (words0 s ! selectedWordIndex0 s) = solved \<or>
    currentIndex0 (words0 s ! selectedWordIndex0 s) \<le> 1 \<longrightarrow> handleBackspace0 s = s) \<and>
   (\<not> isBoundaryIndex0 s (selectedWordIndex0 s) \<and>
    status0 (words0 s ! selectedWordIndex0 s) \<noteq> solved \<and>
    1 < currentIndex0 (words0 s ! selectedWordIndex0 s) \<longrightarrow>
      handleBackspace0 s =
        s\<lparr>words0 := (words0 s)[selectedWordIndex0 s := eraseFrom0 (words0 s ! selectedWordIndex0 s)]\<rparr>)"
  by (auto simp: handleBackspace0_def Let_def mapIndexed_at dest: not_boundary0_less)

lemma Board0_lives: "render0 s = Board \<Longrightarrow> 0 < lives0 s"
  by (simp add: render0_def isGameOver0_def split: if_splits)

lemma page_handleSubmitWord_incorrect:
  assumes "render0 s = Board" and "\<not> isBoundaryIndex0 s index" and "\<not> isCorrect0 (words0 s ! index)"
  shows "lives0 (handleSubmitWord0 index s) = lives0 s - 1"
    and "0 \<le> lives0 (handleSubmitWord0 index s)"
    and "totalGuesses0 (handleSubmitWord0 index s) = totalGuesses0 s + 1"
    and "words0 (handleSubmitWord0 index s) ! index = failWord0 (words0 s ! index)"
    and "status0 (words0 (handleSubmitWord0 index s) ! index) = failed"
    and "currentIndex0 (words0 (handleSubmitWord0 index s) ! index) = 1"
    and "userInput0 (words0 (handleSubmitWord0 index s) ! index) ! 0 = charAt (word0 (words0 s ! index)) 0"
  using assms Board0_lives [OF assms(1)] not_boundary0_less [OF assms(2)]
  by (simp_all add: lives0_handleSubmitWord0 handleSubmitWord0_words failWord0_def nth_arraySet_same)
     (simp add: handleSubmitWord0_def)

lemma page_handleSubmitWord_correct:
  assumes "\<not> isBoundaryIndex0 s index" and "isCorrect0 (words0 s ! index)"
  shows "lives0 (handleSubmitWord0 index s) = lives0 s"
    and "totalGuesses0 (handleSubmitWord0 index s) = totalGuesses0 s + 1"
    and "words0 (handleSubmitWord0 index s) = (words0 s)[index := (words0 s ! index)\<lparr>status0 := solved\<rparr>]"
  using assms
  by (simp_all add: lives0_handleSubmitWord0 handleSubmitWord0_words)
     (simp add: handleSubmitWord0_def)

lemma run0_invariant:
  assumes "P s" and "\<And>e t. P t \<Longrightarrow> P (step0 e t)"
  shows "P (run0 es s)"
  using assms(1)
proof (induction es arbitrary: s)
  case Nil
  then show ?case by simp
next
  case (Cons e es)
  from Cons.prems have "P (step0 e s)" by (rule assms(2))
  then have "P (run0 es (step0 e s))" by (rule Cons.IH)
  then show ?case by simp
qed

lemma lives0_step0: "0 \<le> lives0 s \<Longrightarrow> 0 \<le> lives0 (step0 e s)"
proof (cases e)
  case (SubmitWord index)
  assume "0 \<le> lives0 s"
  then show ?thesis
    using SubmitWord Board0_lives [of s]
    by (auto simp: step0_def lives0_handleSubmitWord0)
qed (simp_all add: step0_def handleKeyPress0_def handleBackspace0_def revertFailed0_def Let_def)

text \<open>In every state that a session of \<^verbatim>\<open>page.tsx\<close> reaches, the game is over exactly when
  no life is left.\<close>

lemma page_isGameOver_iff_no_lives:
  "isGameOver0 (run0 es (initialize0 dataWords)) \<longleftrightarrow> lives0 (run0 es (initialize0 dataWords)) = 0"
proof -
  have "0 \<le> lives0 (run0 es (initialize0 dataWords))"
    by (rule run0_invariant) (simp_all add: initialize0_def lives0_step0)
  then show ?thesis by (auto simp: isGameOver0_def)
qed

subsection \<open>A wrong guess in the two page components\<close>

text \<open>
  In \<^verbatim>\<open>page.tsx\<close> a slot has no \<open>hintsRevealed\<close>: a wrong guess always resets it to its
  first letter. After a first wrong guess on TIME and one more key, a second wrong guess
  leaves the cursor at 1 and the second cell empty, where one more hint would give cursor 3
  and the letters T, I, M; the page with hints gives \<open>hintsRevealed\<close> 3 and cursor 3 on the
  same events.
\<close>

theorem handleSubmitWord_first_letter_only:
  "render0 retrySession0 = Board \<and>
   \<not> isBoundaryIndex0 retrySession0 1 \<and>
   \<not> isCorrect0 (words0 retrySession0 ! 1) \<and>
   word0 (words0 retrySession0 ! 1) = ''TIME'' \<and>
   lives0 retrySession0 = 4 \<and>
   lives0 (handleSubmitWord0 1 retrySession0) = 3 \<and>
   currentIndex0 (words0 (handleSubmitWord0 1 retrySession0) ! 1) = 1 \<and>
   userInput0 (words0 (handleSubmitWord0 1 retrySession0) ! 1) = Some ''T'' # replicate 11 (Some []) \<and>
   hintsRevealed (words retrySession ! 1) = 2 \<and>
   hintsRevealed (words (handleSubmitWord 1 retrySession) ! 1) = 3 \<and>
   currentIndex (words (handleSubmitWord 1 retrySession) ! 1) = 3 \<and>
   take 3 (userInput (words (handleSubmitWord 1 retrySession) ! 1)) = [Some ''T'', Some ''I'', Some ''M'']"
  by (intro conjI; code_simp)

text \<open>
  Claim C2, amended. While the board is shown (the only screen with submit buttons), a
  submit of an interior slot whose guess is wrong takes exactly one life, and \<open>lives\<close> stays
  at or above 0, in both page components. In the page with hints the slot's
  \<open>hintsRevealed\<close> becomes the smaller of \<open>hintsRevealed + 1\<close> and the length of the solution
  word; the cursor equals the new \<open>hintsRevealed\<close>, and the first \<open>hintsRevealed\<close> cells of
  \<open>userInput\<close> hold the letters of the solution word. In \<^verbatim>\<open>page.tsx\<close>, which has no
  \<open>hintsRevealed\<close>, the slot is reset to its first letter: the cursor is 1, the first cell
  of \<open>userInput\<close> holds the first letter of the solution word and the other eleven cells
  are empty.
\<close>

theorem handleSubmitWord_incorrect:
  "(render s = Board \<and> \<not> isBoundaryIndex s index \<and> \<not> isCorrect (words s ! index) \<longrightarrow>
      step (SubmitWord index) s = handleSubmitWord index s \<and>
      lives (handleSubmitWord index s) = lives s - 1 \<and>
      0 \<le> lives (handleSubmitWord index s) \<and>
      lives (handleSubmitWord index s) = max 0 (lives s - 1) \<and>
      totalGuesses (handleSubmitWord index s) = totalGuesses s + 1 \<and>
      status (words (handleSubmitWord index s) ! index) = failed \<and>
      hintsRevealed (words (handleSubmitWord index s) ! index) =
        min (hintsRevealed (words s ! index) + 1) (length (word (words s ! index))) \<and>
      currentIndex (words (handleSubmitWord index s) ! index) =
        hintsRevealed (words (handleSubmitWord index s) ! index) \<and>
      hintsRevealed (words (handleSubmitWord index s) ! index) \<le>
        length (userInput (words (handleSubmitWord index s) ! index)) \<and>
      (\<forall>j < hintsRevealed (words (handleSubmitWord index s) ! index).
         userInput (words (handleSubmitWord index s) ! index) ! j = Some [word (words s ! index) ! j])) \<and>
   (render0 t = Board \<and> \<not> isBoundaryIndex0 t k \<and> \<not> isCorrect0 (words0 t ! k) \<longrightarrow>
      step0 (SubmitWord k) t = handleSubmitWord0 k t \<and>
      lives0 (handleSubmitWord0 k t) = lives0 t - 1 \<and>
      0 \<le> lives0 (handleSubmitWord0 k t) \<and>
      lives0 (handleSubmitWord0 k t) = max 0 (lives0 t - 1) \<and>
      totalGuesses0 (handleSubmitWord0 k t) = totalGuesses0 t + 1 \<and>
      status0 (words0 (handleSubmitWord0 k t) ! k) = failed \<and>
      word0 (words0 (handleSubmitWord0 k t) ! k) = word0 (words0 t ! k) \<and>
      currentIndex0 (words0 (handleSubmitWord0 k t) ! k) = 1 \<and>
      userInput0 (words0 (handleSubmitWord0 k t) ! k) =
        charAt (word0 (words0 t ! k)) 0 # replicate 11 (Some []))"
proof (rule conjI; rule impI)
  assume a: "render s = Board \<and> \<not> isBoundaryIndex s index \<and> \<not> isCorrect (words s ! index)"
  then have board: "render s = Board"
    and nb: "\<not> isBoundaryIndex s index"
    and nc: "\<not> isCorrect (words s ! index)"
    by blast+
  from nb have i: "index < length (words s)" by (rule not_boundary_less)
  from nb nc i have w: "words (handleSubmitWord index s) ! index = failWord (words s ! index)"
    by (simp add: handleSubmitWord_words)
  from board have pos: "0 < lives s" by (rule Board_lives)
  from nb nc have l: "lives (handleSubmitWord index s) = lives s - 1"
    by (simp add: lives_handleSubmitWord)
  from nb nc have g: "totalGuesses (handleSubmitWord index s) = totalGuesses s + 1"
    by (simp add: handleSubmitWord_def)
  from board have st: "step (SubmitWord index) s = handleSubmitWord index s"
    by (simp add: step_def)
  from pos l have l0: "0 \<le> lives (handleSubmitWord index s)"
    and lm: "lives (handleSubmitWord index s) = max 0 (lives s - 1)"
    by simp_all
  have f: "status (words (handleSubmitWord index s) ! index) = failed"
    "hintsRevealed (words (handleSubmitWord index s) ! index) =
      min (hintsRevealed (words s ! index) + 1) (length (word (words s ! index)))"
    "currentIndex (words (handleSubmitWord index s) ! index) =
      hintsRevealed (words (handleSubmitWord index s) ! index)"
    by (simp_all add: w failWord_fields)
  have p: "hintsRevealed (words (handleSubmitWord index s) ! index) \<le>
      length (userInput (words (handleSubmitWord index s) ! index))"
    "\<forall>j < hintsRevealed (words (handleSubmitWord index s) ! index).
       userInput (words (handleSubmitWord index s) ! index) ! j = Some [word (words s ! index) ! j]"
    using failWord_prefix [of "words s ! index"] unfolding w by blast+
  show "step (SubmitWord index) s = handleSubmitWord index s \<and>
      lives (handleSubmitWord index s) = lives s - 1 \<and>
      0 \<le> lives (handleSubmitWord index s) \<and>
      lives (handleSubmitWord index s) = max 0 (lives s - 1) \<and>
      totalGuesses (handleSubmitWord index s) = totalGuesses s + 1 \<and>
      status (words (handleSubmitWord index s) ! index) = failed \<and>
      hintsRevealed (words (handleSubmitWord index s) ! index) =
        min (hintsRevealed (words s ! index) + 1) (length (word (words s ! index))) \<and>
      currentIndex (words (handleSubmitWord index s) ! index) =
        hintsRevealed (words (handleSubmitWord index s) ! index) \<and>
      hintsRevealed (words (handleSubmitWord index s) ! index) \<le>
        length (userInput (words (handleSubmitWord index s) ! index)) \<and>
      (\<forall>j < hintsRevealed (words (handleSubmitWord index s) ! index).
         userInput (words (handleSubmitWord index s) ! index) ! j = Some [word (words s ! index) ! j])"
    by (intro conjI st l l0 lm g f p)
next
  assume a: "render0 t = Board \<and> \<not> isBoundaryIndex0 t k \<and> \<not> isCorrect0 (words0 t ! k)"
  then have board: "render0 t = Board"
    and nb: "\<not> isBoundaryIndex0 t k"
    and nc: "\<not> isCorrect0 (words0 t ! k)"
    by blast+
  note q = page_handleSubmitWord_incorrect [OF board nb nc]
  from board have st: "step0 (SubmitWord k) t = handleSubmitWord0 k t"
    by (simp add: step0_def)
  from q(1,2) have lm: "lives0 (handleSubmitWord0 k t) = max 0 (lives0 t - 1)"
    by simp
  have w: "words0 (handleSubmitWord0 k t) ! k = failWord0 (words0 t ! k)"
    by (rule q(4))
  have wd: "word0 (words0 (handleSubmitWord0 k t) ! k) = word0 (words0 t ! k)"
    by (simp add: w failWord0_def)
  have inp: "userInput0 (words0 (handleSubmitWord0 k t) ! k) =
      charAt (word0 (words0 t ! k)) 0 # replicate 11 (Some [])"
    by (simp add: w failWord0_def emptyInput0_def arraySet_def eval_nat_numeral)
  show "step0 (SubmitWord k) t = handleSubmitWord0 k t \<and>
      lives0 (handleSubmitWord0 k t) = lives0 t - 1 \<and>
      0 \<le> lives0 (handleSubmitWord0 k t) \<and>
      lives0 (handleSubmitWord0 k t) = max 0 (lives0 t - 1) \<and>
      totalGuesses0 (handleSubmitWord0 k t) = totalGuesses0 t + 1 \<and>
      status0 (words0 (handleSubmitWord0 k t) ! k) = failed \<and>
      word0 (words0 (handleSubmitWord0 k t) ! k) = word0 (words0 t ! k) \<and>
      currentIndex0 (words0 (handleSubmitWord0 k t) ! k) = 1 \<and>
      userInput0 (words0 (handleSubmitWord0 k t) ! k) =
        charAt (word0 (words0 t ! k)) 0 # replicate 11 (Some [])"
    by (intro conjI st q(1) q(2) lm q(3) q(5) wd q(6) inp)
qed

theorem handleSubmitWord_incorrect_witness:
  "render secondWordSession = Board \<and>
   \<not> isBoundaryIndex secondWordSession 2 \<and>
   \<not> isCorrect (words secondWordSession ! 2) \<and>
   lives secondWordSession = 5 \<and>
   hintsRevealed (words secondWordSession ! 2) = 1 \<and>
   lives (handleSubmitWord 2 secondWordSession) = 4 \<and>
   status (words (handleSubmitWord 2 secondWordSession) ! 2) = failed \<and>
   hintsRevealed (words (handleSubmitWord 2 secondWordSession) ! 2) = 2 \<and>
   currentIndex (words (handleSubmitWord 2 secondWordSession) ! 2) = 2 \<and>
   userInput (words (handleSubmitWord 2 secondWordSession) ! 2) ! 0 = Some ''O'' \<and>
   userInput (words (handleSubmitWord 2 secondWordSession) ! 2) ! 1 = Some ''U'' \<and>
   render0 retrySession0 = Board \<and>
   \<not> isBoundaryIndex0 retrySession0 1 \<and>
   \<not> isCorrect0 (words0 retrySession0 ! 1) \<and>
   lives0 retrySession0 = 4 \<and>
   lives0 (handleSubmitWord0 1 retrySession0) = 3 \<and>
   status0 (words0 (handleSubmitWord0 1 retrySession0) ! 1) = failed \<and>
   currentIndex0 (words0 (handleSubmitWord0 1 retrySession0) ! 1) = 1 \<and>
   userInput0 (words0 (handleSubmitWord0 1 retrySession0) ! 1) ! 0 = Some ''T''"
proof -
  have r: "render secondWordSession = Board"
    and nb: "\<not> isBoundaryIndex secondWordSession 2"
    and nc: "\<not> isCorrect (words secondWordSession ! 2)"
    and l: "lives secondWordSession = 5"
    and h: "hintsRevealed (words secondWordSession ! 2) = 1"
    and w: "word (words secondWordSession ! 2) = ''OUT''"
    by code_simp+
  note t = handleSubmitWord_incorrect [of secondWordSession 2, THEN conjunct1, THEN mp,
      OF conjI [OF r conjI [OF nb nc]]]
  from t l have a: "lives (handleSubmitWord 2 secondWordSession) = 4" by simp
  from t have b: "status (words (handleSubmitWord 2 secondWordSession) ! 2) = failed" by blast
  from t h w have c: "hintsRevealed (words (handleSubmitWord 2 secondWordSession) ! 2) = 2" by simp
  from t c have d: "currentIndex (words (handleSubmitWord 2 secondWordSession) ! 2) = 2" by simp
  from t have "\<forall>j < hintsRevealed (words (handleSubmitWord 2 secondWordSession) ! 2).
       userInput (words (handleSubmitWord 2 secondWordSession) ! 2) ! j =
         Some [word (words secondWordSession ! 2) ! j]"
    by blast
  then have e: "userInput (words (handleSubmitWord 2 secondWordSession) ! 2) ! 0 = Some ''O''"
    "userInput (words (handleSubmitWord 2 secondWordSession) ! 2) ! 1 = Some ''U''"
    using c w by simp_all
  have r0: "render0 retrySession0 = Board"
    and nb0: "\<not> isBoundaryIndex0 retrySession0 1"
    and nc0: "\<not> isCorrect0 (words0 retrySession0 ! 1)"
    and l0: "lives0 retrySession0 = 4"
    and w0: "word0 (words0 retrySession0 ! 1) = ''TIME''"
    by code_simp+
  note u = handleSubmitWord_incorrect [of _ _ retrySession0 1, THEN conjunct2, THEN mp,
      OF conjI [OF r0 conjI [OF nb0 nc0]]]
  from u l0 have a0: "lives0 (handleSubmitWord0 1 retrySession0) = 3" by simp
  from u have b0: "status0 (words0 (handleSubmitWord0 1 retrySession0) ! 1) = failed" by blast
  from u have c0: "currentIndex0 (words0 (handleSubmitWord0 1 retrySession0) ! 1) = 1" by blast
  from u have "userInput0 (words0 (handleSubmitWord0 1 retrySession0) ! 1) =
      charAt (word0 (words0 retrySession0 ! 1)) 0 # replicate 11 (Some [])"
    by blast
  then have d0: "userInput0 (words0 (handleSubmitWord0 1 retrySession0) ! 1) ! 0 = Some ''T''"
    unfolding w0 by (simp add: charAt_def)
  show ?thesis
    by (intro conjI r nb nc l h a b c d e r0 nb0 nc0 l0 a0 b0 c0 d0)
qed

end
